theory Spec2Isabelle
  imports Main "HOL-Library.AList" "HOL-Library.Sublist"
begin

section \<open>The color tables of \<open>colorize_theme.py\<close>\<close>

text \<open>
  The program resolves symbolic color references of a VSCode theme template into literal
  colors. Its class \<open>ColorMappings\<close> holds two tables loaded from JSON and offers four
  lookups and one pass over a theme document.

  Python strings are modelled as \<open>string\<close>. The only characters the program looks for are
  the ASCII characters \<open>.\<close> and \<open>#\<close>, and no byte of a multi-byte UTF-8 sequence equals an
  ASCII byte, so the tests below do not depend on the encoding.

  A Python \<open>dict\<close> keeps its keys in insertion order and has no key twice. A dictionary
  that the program iterates over is an association list in that order, read with
  \<open>map_of\<close> and written in place with \<open>AList.update\<close>; a list with a repeated key is not
  the image of any \<open>dict\<close>, and the theorems that need it say \<open>distinct (map fst kvs)\<close>.
\<close>

subsection \<open>Failures\<close>

text \<open>
  The program raises \<open>Exception\<close> with a formatted message at seven places. Each place
  is a constructor that carries the values the message interpolates:
  \<^item> \<open>MalformedNameError name\<close>: "A qualified name can only have one '.' (name)";
  \<^item> \<open>ColorNotFoundError name None\<close>: "Color name not found";
  \<^item> \<open>ColorNotFoundError name (Some qual)\<close>: "Color name not in group qual";
  \<^item> \<open>GroupNotFoundError qual\<close>: "Color group qual not found";
  \<^item> \<open>UnqualifiedBindingError binding_name\<close>: "Binding names must be qualified (binding_name)";
  \<^item> \<open>CategoryNotFoundError qual\<close>: "Binding category qual not found";
  \<^item> \<open>ElementNotFoundError name qual\<close>: "Color name not found in category qual".

  The remaining constructors are the exceptions the interpreter itself raises when a
  document has not the shape the program expects.
\<close>

datatype error =
    MalformedNameError string
  | ColorNotFoundError string "string option"
  | GroupNotFoundError string
  | UnqualifiedBindingError string
  | CategoryNotFoundError string
  | ElementNotFoundError string string
  | KeyError string
  | TypeError
  | AttributeError
  | IndexError
  | ValueError

subsection \<open>The tables\<close>

type_synonym Color = string
type_synonym ColorName = string
type_synonym ColorGroup = "(ColorName \<times> Color) list"
type_synonym ColorMap = "(string \<times> ColorGroup) list"
type_synonym ElementName = string
type_synonym ElementColorBindings = "(ElementName \<times> ColorName) list"
type_synonym ColorBinding = "(string \<times> ElementColorBindings) list"

text \<open>
  The constructor annotates \<open>bindings\<close> as \<open>ElementColorBindings\<close>, but \<open>load\<close> passes
  the two-level \<open>binding_groups\<close> and \<open>get_color_name_for_binding\<close> reads it in two
  levels: the field has the type \<open>ColorBinding\<close>. The index \<open>all_colors\<close> is only ever
  read by key, so it is a map.
\<close>

record ColorMappings =
  color_map :: ColorMap
  all_colors :: "ColorName \<rightharpoonup> Color"
  bindings :: ColorBinding

text \<open>The inner loop of \<open>__init__\<close>: the items of one group, in order.\<close>

fun add_group :: "(ColorName \<rightharpoonup> Color) \<Rightarrow> ColorGroup \<Rightarrow> (ColorName \<rightharpoonup> Color)" where
  "add_group ac [] = ac"
| "add_group ac ((name, val) # items) =
     add_group (if ac name = None then ac(name \<mapsto> val) else ac) items"

text \<open>The outer loop of \<open>__init__\<close>: the groups, in order.\<close>

fun add_groups :: "(ColorName \<rightharpoonup> Color) \<Rightarrow> ColorMap \<Rightarrow> (ColorName \<rightharpoonup> Color)" where
  "add_groups ac [] = ac"
| "add_groups ac ((key, gr) # groups) = add_groups (add_group ac gr) groups"

definition init :: "ColorMap \<Rightarrow> ColorBinding \<Rightarrow> ColorMappings" where
  "init colors bnds =
     \<lparr>color_map = colors, all_colors = add_groups Map.empty colors, bindings = bnds\<rparr>"

subsection \<open>Name decomposition\<close>

text \<open>\<open>str.split\<close> with a one-character separator.\<close>

fun split_chr :: "char \<Rightarrow> string \<Rightarrow> string list" where
  "split_chr c [] = [[]]"
| "split_chr c (x # xs) =
     (if x = c then [] # split_chr c xs
      else (case split_chr c xs of [] \<Rightarrow> [[x]] | w # ws \<Rightarrow> (x # w) # ws))"

text \<open>
  \<open>_decompose_name\<close> returns the pair \<open>(None, name)\<close> or the list \<open>name.split(".")\<close>,
  and both callers unpack the result into two variables. The model unpacks at once; a
  list of another length would be the \<open>ValueError\<close> of the unpacking.
\<close>

definition decompose_name :: "string \<Rightarrow> error + (string option \<times> string)" where
  "decompose_name name =
     (if CHR ''.'' \<notin> set name then Inr (None, name)
      else if count_list name CHR ''.'' > 1 then Inl (MalformedNameError name)
      else (case split_chr CHR ''.'' name of
              [qual, base] \<Rightarrow> Inr (Some qual, base)
            | _ \<Rightarrow> Inl ValueError))"

subsection \<open>The lookups\<close>

definition get_color_for_name :: "ColorMappings \<Rightarrow> string \<Rightarrow> error + Color" where
  "get_color_for_name cm color =
     (case decompose_name color of
        Inl e \<Rightarrow> Inl e
      | Inr (None, name) \<Rightarrow>
          (case all_colors cm name of
             None \<Rightarrow> Inl (ColorNotFoundError name None)
           | Some v \<Rightarrow> Inr v)
      | Inr (Some qual, name) \<Rightarrow>
          (case map_of (color_map cm) qual of
             None \<Rightarrow> Inl (GroupNotFoundError qual)
           | Some gr \<Rightarrow>
               (case map_of gr name of
                  None \<Rightarrow> Inl (ColorNotFoundError name (Some qual))
                | Some v \<Rightarrow> Inr v)))"

definition get_color_name_for_binding :: "ColorMappings \<Rightarrow> string \<Rightarrow> error + ColorName" where
  "get_color_name_for_binding cm binding_name =
     (case decompose_name binding_name of
        Inl e \<Rightarrow> Inl e
      | Inr (None, name) \<Rightarrow> Inl (UnqualifiedBindingError binding_name)
      | Inr (Some qual, name) \<Rightarrow>
          (case map_of (bindings cm) qual of
             None \<Rightarrow> Inl (CategoryNotFoundError qual)
           | Some cat \<Rightarrow>
               (case map_of cat name of
                  None \<Rightarrow> Inl (ElementNotFoundError name qual)
                | Some v \<Rightarrow> Inr v)))"

definition get_color_for_binding :: "ColorMappings \<Rightarrow> string \<Rightarrow> error + Color" where
  "get_color_for_binding cm binding_name =
     (case get_color_name_for_binding cm binding_name of
        Inl e \<Rightarrow> Inl e
      | Inr color \<Rightarrow> get_color_for_name cm color)"

section \<open>The theme document\<close>

text \<open>
  \<open>apply_to_theme\<close> reads the theme with \<open>json.load\<close> and checks nothing about its
  shape, so the document is any JSON value. \<open>json.load\<close> builds a fresh tree: no two
  places of the document share an object, and an assignment into one place changes that
  place only. Floating-point numbers are never looked at; their type is a parameter.
\<close>

datatype 'f json =
    JNull
  | JBool bool
  | JInt int
  | JFloat 'f
  | JStr string
  | JArr "'f json list"
  | JObj "(string \<times> 'f json) list"

text \<open>\<open>key in x\<close> for a string \<open>key\<close>.\<close>

fun py_in :: "string \<Rightarrow> 'f json \<Rightarrow> error + bool" where
  "py_in key (JObj kvs) = Inr (map_of kvs key \<noteq> None)"
| "py_in key (JArr xs) = Inr (JStr key \<in> set xs)"
| "py_in key (JStr s) = Inr (sublist key s)"
| "py_in key _ = Inl TypeError"

text \<open>\<open>x[key]\<close> for a string \<open>key\<close>.\<close>

fun py_getitem :: "'f json \<Rightarrow> string \<Rightarrow> error + 'f json" where
  "py_getitem (JObj kvs) key =
     (case map_of kvs key of None \<Rightarrow> Inl (KeyError key) | Some v \<Rightarrow> Inr v)"
| "py_getitem _ key = Inl TypeError"

text \<open>\<open>x[key] = v\<close> for a string \<open>key\<close>.\<close>

fun py_setitem :: "'f json \<Rightarrow> string \<Rightarrow> 'f json \<Rightarrow> error + 'f json" where
  "py_setitem (JObj kvs) key v = Inr (JObj (AList.update key v kvs))"
| "py_setitem _ key v = Inl TypeError"

text \<open>\<open>s.startswith("#")\<close>.\<close>

fun startswith_hash :: "string \<Rightarrow> bool" where
  "startswith_hash [] = False"
| "startswith_hash (c # cs) = (c = CHR ''#'')"

text \<open>
  The test and replacement the program applies at each of its three places: the value
  must have a method \<open>startswith\<close>, so it must be a string; a string that starts with
  \<open>#\<close> stays, any other is resolved as a binding.
\<close>

fun resolve_value :: "ColorMappings \<Rightarrow> 'f json \<Rightarrow> error + 'f json option" where
  "resolve_value cm (JStr s) =
     (if startswith_hash s then Inr None
      else (case get_color_for_binding cm s of Inl e \<Rightarrow> Inl e | Inr v \<Rightarrow> Inr (Some (JStr v))))"
| "resolve_value cm _ = Inl AttributeError"

subsection \<open>The loop over \<open>theme["colors"]\<close>\<close>

text \<open>
  Iterating a \<open>dict\<close> gives its keys in order. Each step reads the value at the key from
  the dictionary as it is then, and may assign to the same key, which changes neither
  the keys nor their order.
\<close>

fun colors_dict_loop ::
  "ColorMappings \<Rightarrow> string list \<Rightarrow> (string \<times> 'f json) list \<Rightarrow> error + (string \<times> 'f json) list"
where
  "colors_dict_loop cm [] cs = Inr cs"
| "colors_dict_loop cm (themeColor # rest) cs =
     (case map_of cs themeColor of
        None \<Rightarrow> Inl (KeyError themeColor)
      | Some element_color \<Rightarrow>
          (case resolve_value cm element_color of
             Inl e \<Rightarrow> Inl e
           | Inr None \<Rightarrow> colors_dict_loop cm rest cs
           | Inr (Some v) \<Rightarrow> colors_dict_loop cm rest (AList.update themeColor v cs)))"

text \<open>
  \<open>xs[x]\<close> for a list \<open>xs\<close>: the index must be an \<open>int\<close> (a \<open>bool\<close> is one), a negative
  index counts from the end, and an index out of range raises \<open>IndexError\<close>.
\<close>

definition list_position :: "'f json list \<Rightarrow> int \<Rightarrow> error + nat" where
  "list_position xs i =
     (let n = int (length xs); k = (if i < 0 then i + n else i)
      in if 0 \<le> k \<and> k < n then Inr (nat k) else Inl IndexError)"

fun list_index :: "'f json list \<Rightarrow> 'f json \<Rightarrow> error + nat" where
  "list_index xs (JInt i) = list_position xs i"
| "list_index xs (JBool b) = list_position xs (if b then 1 else 0)"
| "list_index xs _ = Inl TypeError"

text \<open>
  Were \<open>theme["colors"]\<close> a list, the loop would take its elements one position after
  the other, read from the list as it is then, and use each element as an index into
  the same list. The length never changes, so the positions are known at the start.
\<close>

fun colors_list_loop :: "ColorMappings \<Rightarrow> nat list \<Rightarrow> 'f json list \<Rightarrow> error + 'f json list" where
  "colors_list_loop cm [] xs = Inr xs"
| "colors_list_loop cm (j # js) xs =
     (case list_index xs (xs ! j) of
        Inl e \<Rightarrow> Inl e
      | Inr i \<Rightarrow>
          (case resolve_value cm (xs ! i) of
             Inl e \<Rightarrow> Inl e
           | Inr None \<Rightarrow> colors_list_loop cm js xs
           | Inr (Some v) \<Rightarrow> colors_list_loop cm js (xs[i := v])))"

text \<open>
  Lines 119 to 123. A string iterates over its characters, and indexing the string with
  the first of them is a \<open>TypeError\<close>; \<open>None\<close>, a Boolean and a number do not iterate.
\<close>

fun rewrite_colors :: "ColorMappings \<Rightarrow> 'f json \<Rightarrow> error + 'f json" where
  "rewrite_colors cm (JObj cs) =
     (case colors_dict_loop cm (map fst cs) cs of Inl e \<Rightarrow> Inl e | Inr cs' \<Rightarrow> Inr (JObj cs'))"
| "rewrite_colors cm (JArr xs) =
     (case colors_list_loop cm [0..<length xs] xs of Inl e \<Rightarrow> Inl e | Inr xs' \<Rightarrow> Inr (JArr xs'))"
| "rewrite_colors cm (JStr s) = (if s = [] then Inr (JStr s) else Inl TypeError)"
| "rewrite_colors cm _ = Inl TypeError"

subsection \<open>The loop over \<open>theme["tokenColors"]\<close>\<close>

text \<open>
  Lines 128 to 131 for \<open>key = "foreground"\<close> and lines 132 to 135 for
  \<open>key = "background"\<close>: the same four lines, on the same \<open>settings\<close> object.
\<close>

definition rewrite_field :: "ColorMappings \<Rightarrow> string \<Rightarrow> 'f json \<Rightarrow> error + 'f json" where
  "rewrite_field cm key settings =
     (case py_in key settings of
        Inl e \<Rightarrow> Inl e
      | Inr False \<Rightarrow> Inr settings
      | Inr True \<Rightarrow>
          (case py_getitem settings key of
             Inl e \<Rightarrow> Inl e
           | Inr fg \<Rightarrow>
               (case resolve_value cm fg of
                  Inl e \<Rightarrow> Inl e
                | Inr None \<Rightarrow> Inr settings
                | Inr (Some v) \<Rightarrow> py_setitem settings key v)))"

text \<open>
  Lines 126 to 135, the body of the loop. \<open>settings\<close> is the object inside \<open>obj\<close>, so
  what is assigned into it is seen in \<open>obj\<close>.
\<close>

definition process_rule :: "ColorMappings \<Rightarrow> 'f json \<Rightarrow> error + 'f json" where
  "process_rule cm obj =
     (case py_in ''settings'' obj of
        Inl e \<Rightarrow> Inl e
      | Inr False \<Rightarrow> Inr obj
      | Inr True \<Rightarrow>
          (case py_getitem obj ''settings'' of
             Inl e \<Rightarrow> Inl e
           | Inr settings \<Rightarrow>
               (case rewrite_field cm ''foreground'' settings of
                  Inl e \<Rightarrow> Inl e
                | Inr settings1 \<Rightarrow>
                    (case rewrite_field cm ''background'' settings1 of
                       Inl e \<Rightarrow> Inl e
                     | Inr settings2 \<Rightarrow> py_setitem obj ''settings'' settings2))))"

fun rules_loop :: "ColorMappings \<Rightarrow> 'f json list \<Rightarrow> error + 'f json list" where
  "rules_loop cm [] = Inr []"
| "rules_loop cm (obj # rest) =
     (case process_rule cm obj of
        Inl e \<Rightarrow> Inl e
      | Inr obj' \<Rightarrow>
          (case rules_loop cm rest of Inl e \<Rightarrow> Inl e | Inr rest' \<Rightarrow> Inr (obj' # rest')))"

text \<open>
  Lines 124 to 135. Iterating a \<open>dict\<close> gives its keys and iterating a string gives its
  characters, each a string; the body can fail on a string but cannot change it.
\<close>

fun rewrite_token_colors :: "ColorMappings \<Rightarrow> 'f json \<Rightarrow> error + 'f json" where
  "rewrite_token_colors cm (JArr rules) =
     (case rules_loop cm rules of Inl e \<Rightarrow> Inl e | Inr rules' \<Rightarrow> Inr (JArr rules'))"
| "rewrite_token_colors cm (JObj kvs) =
     (case rules_loop cm (map (\<lambda>kv. JStr (fst kv)) kvs :: 'f json list) of
        Inl e \<Rightarrow> Inl e
      | Inr _ \<Rightarrow> Inr (JObj kvs))"
| "rewrite_token_colors cm (JStr s) =
     (case rules_loop cm (map (\<lambda>c. JStr [c]) s :: 'f json list) of
        Inl e \<Rightarrow> Inl e
      | Inr _ \<Rightarrow> Inr (JStr s))"
| "rewrite_token_colors cm _ = Inl TypeError"

subsection \<open>The pass\<close>

text \<open>
  \<open>apply_to_theme\<close> after \<open>json.load\<close>. The document is a local variable: when an
  exception leaves the function, what had been rewritten so far is lost.
\<close>

definition apply_to_theme :: "ColorMappings \<Rightarrow> 'f json \<Rightarrow> error + 'f json" where
  "apply_to_theme cm theme =
     (case py_getitem theme ''colors'' of
        Inl e \<Rightarrow> Inl e
      | Inr colors \<Rightarrow>
          (case rewrite_colors cm colors of
             Inl e \<Rightarrow> Inl e
           | Inr colors' \<Rightarrow>
               (case py_setitem theme ''colors'' colors' of
                  Inl e \<Rightarrow> Inl e
                | Inr theme1 \<Rightarrow>
                    (case py_getitem theme1 ''tokenColors'' of
                       Inl e \<Rightarrow> Inl e
                     | Inr token_colors \<Rightarrow>
                         (case rewrite_token_colors cm token_colors of
                            Inl e \<Rightarrow> Inl e
                          | Inr token_colors' \<Rightarrow>
                              py_setitem theme1 ''tokenColors'' token_colors')))))"

section \<open>Statements about tables and documents\<close>

text \<open>A value that is a string starting with the literal marker \<open>#\<close>.\<close>

fun is_literal :: "'f json \<Rightarrow> bool" where
  "is_literal (JStr s) = startswith_hash s"
| "is_literal _ = False"

text \<open>Every color value stored in the groups of a color table starts with \<open>#\<close>.\<close>

definition literal_table :: "ColorMap \<Rightarrow> bool" where
  "literal_table colors = list_all (\<lambda>g. list_all (\<lambda>item. startswith_hash (snd item)) (snd g)) colors"

text \<open>
  The rule of the rewriter for one value: a string that starts with \<open>#\<close> is left as it
  is, and any other string is replaced with the color its binding resolves to.
\<close>

definition rewritten :: "ColorMappings \<Rightarrow> 'f json \<Rightarrow> 'f json \<Rightarrow> bool" where
  "rewritten cm v v' =
     (case v of
        JStr s \<Rightarrow>
          (if startswith_hash s then v' = v
           else (case get_color_for_binding cm s of Inl e \<Rightarrow> False | Inr c \<Rightarrow> v' = JStr c))
      | _ \<Rightarrow> False)"

text \<open>
  A theme document of the expected shape on which the rule can be carried out: \<open>colors\<close>
  is an object, with no key twice, of strings that start with \<open>#\<close> or are bindings that
  resolve; \<open>tokenColors\<close> is a list of objects; and where one has \<open>settings\<close>, that is an
  object whose \<open>foreground\<close> and \<open>background\<close>, if there, are such strings.
\<close>

definition resolvable :: "ColorMappings \<Rightarrow> 'f json \<Rightarrow> bool" where
  "resolvable cm v =
     (case v of
        JStr s \<Rightarrow>
          startswith_hash s \<or>
          (case get_color_for_binding cm s of Inl e \<Rightarrow> False | Inr c \<Rightarrow> True)
      | _ \<Rightarrow> False)"

definition resolvable_field :: "ColorMappings \<Rightarrow> string \<Rightarrow> (string \<times> 'f json) list \<Rightarrow> bool" where
  "resolvable_field cm key st =
     (case map_of st key of None \<Rightarrow> True | Some v \<Rightarrow> resolvable cm v)"

definition resolvable_rule :: "ColorMappings \<Rightarrow> 'f json \<Rightarrow> bool" where
  "resolvable_rule cm r =
     (case r of
        JObj rf \<Rightarrow>
          (case map_of rf ''settings'' of
             None \<Rightarrow> True
           | Some (JObj st) \<Rightarrow>
               resolvable_field cm ''foreground'' st \<and> resolvable_field cm ''background'' st
           | Some _ \<Rightarrow> False)
      | _ \<Rightarrow> False)"

definition resolvable_theme :: "ColorMappings \<Rightarrow> 'f json \<Rightarrow> bool" where
  "resolvable_theme cm theme =
     (case theme of
        JObj fs \<Rightarrow>
          (case map_of fs ''colors'' of
             Some (JObj cs) \<Rightarrow>
               distinct (map fst cs) \<and> list_all (\<lambda>kv. resolvable cm (snd kv)) cs \<and>
               (case map_of fs ''tokenColors'' of
                  Some (JArr rules) \<Rightarrow> list_all (resolvable_rule cm) rules
                | _ \<Rightarrow> False)
           | _ \<Rightarrow> False)
      | _ \<Rightarrow> False)"

text \<open>The rule applied to the field \<open>key\<close> of a \<open>settings\<close> object, when the field is there.\<close>

definition field_rewritten ::
  "ColorMappings \<Rightarrow> string \<Rightarrow> (string \<times> 'f json) list \<Rightarrow> (string \<times> 'f json) list \<Rightarrow> bool"
where
  "field_rewritten cm key st st' =
     (case map_of st key of
        None \<Rightarrow> map_of st' key = None
      | Some v \<Rightarrow> (case map_of st' key of None \<Rightarrow> False | Some v' \<Rightarrow> rewritten cm v v'))"

text \<open>
  The rule applied to a rule object: when it has a \<open>settings\<close> object, both fields of
  that object are rewritten, each by itself.
\<close>

definition rule_rewritten :: "ColorMappings \<Rightarrow> 'f json \<Rightarrow> 'f json \<Rightarrow> bool" where
  "rule_rewritten cm r r' =
     (case r of
        JObj rf \<Rightarrow>
          (case map_of rf ''settings'' of
             Some (JObj st) \<Rightarrow>
               (case r' of
                  JObj rf' \<Rightarrow>
                    (case map_of rf' ''settings'' of
                       Some (JObj st') \<Rightarrow>
                         field_rewritten cm ''foreground'' st st' \<and>
                         field_rewritten cm ''background'' st st'
                     | _ \<Rightarrow> False)
                | _ \<Rightarrow> False)
           | _ \<Rightarrow> True)
      | _ \<Rightarrow> True)"

text \<open>
  A theme document of the expected shape in which every reference is already a literal:
  \<open>colors\<close> maps to strings that start with \<open>#\<close>, \<open>tokenColors\<close> is a list of objects,
  and where one has \<open>settings\<close>, that is an object whose \<open>foreground\<close> and \<open>background\<close>,
  if there, are strings that start with \<open>#\<close>.
\<close>

definition literal_field :: "string \<Rightarrow> (string \<times> 'f json) list \<Rightarrow> bool" where
  "literal_field key st = (case map_of st key of None \<Rightarrow> True | Some v \<Rightarrow> is_literal v)"

definition literal_rule :: "'f json \<Rightarrow> bool" where
  "literal_rule r =
     (case r of
        JObj rf \<Rightarrow>
          (case map_of rf ''settings'' of
             None \<Rightarrow> True
           | Some (JObj st) \<Rightarrow> literal_field ''foreground'' st \<and> literal_field ''background'' st
           | Some _ \<Rightarrow> False)
      | _ \<Rightarrow> False)"

definition literal_theme :: "'f json \<Rightarrow> bool" where
  "literal_theme theme =
     (case theme of
        JObj fs \<Rightarrow>
          (case map_of fs ''colors'' of
             Some (JObj cs) \<Rightarrow>
               list_all (\<lambda>kv. is_literal (snd kv)) cs \<and>
               (case map_of fs ''tokenColors'' of
                  Some (JArr rules) \<Rightarrow> list_all literal_rule rules
                | _ \<Rightarrow> False)
           | _ \<Rightarrow> False)
      | _ \<Rightarrow> False)"

text \<open>
  What a pass may change. Two objects are related when they have the same keys in the
  same order and every field is either equal or one the pass may rewrite; a value that
  is not an object must stay as it is.
\<close>

definition frame_settings :: "'f json \<Rightarrow> 'f json \<Rightarrow> bool" where
  "frame_settings s s' =
     (case (s, s') of
        (JObj st, JObj st') \<Rightarrow>
          list_all2 (\<lambda>kv kv'. fst kv' = fst kv \<and>
             (fst kv = ''foreground'' \<or> fst kv = ''background'' \<or> snd kv' = snd kv)) st st'
      | _ \<Rightarrow> s' = s)"

definition frame_rule :: "'f json \<Rightarrow> 'f json \<Rightarrow> bool" where
  "frame_rule r r' =
     (case (r, r') of
        (JObj rf, JObj rf') \<Rightarrow>
          list_all2 (\<lambda>kv kv'. fst kv' = fst kv \<and>
             (if fst kv = ''settings'' then frame_settings (snd kv) (snd kv')
              else snd kv' = snd kv)) rf rf'
      | _ \<Rightarrow> r' = r)"

definition frame_token_colors :: "'f json \<Rightarrow> 'f json \<Rightarrow> bool" where
  "frame_token_colors tc tc' =
     (case (tc, tc') of
        (JArr rules, JArr rules') \<Rightarrow> list_all2 frame_rule rules rules'
      | _ \<Rightarrow> tc' = tc)"

definition frame_colors :: "'f json \<Rightarrow> 'f json \<Rightarrow> bool" where
  "frame_colors c c' =
     (case (c, c') of
        (JObj cs, JObj cs') \<Rightarrow> map fst cs' = map fst cs
      | _ \<Rightarrow> c' = c)"

definition frame_theme :: "'f json \<Rightarrow> 'f json \<Rightarrow> bool" where
  "frame_theme theme theme' =
     (case (theme, theme') of
        (JObj fs, JObj fs') \<Rightarrow>
          list_all2 (\<lambda>kv kv'. fst kv' = fst kv \<and>
             (if fst kv = ''colors'' then frame_colors (snd kv) (snd kv')
              else if fst kv = ''tokenColors'' then frame_token_colors (snd kv) (snd kv')
              else snd kv' = snd kv)) fs fs'
      | _ \<Rightarrow> theme' = theme)"

section \<open>Properties of the lookups\<close>

subsection \<open>Splitting at the dot\<close>

lemma split_chr_absent: "c \<notin> set s \<Longrightarrow> split_chr c s = [s]"
  by (induction s) auto

lemma split_chr_at: "c \<notin> set q \<Longrightarrow> split_chr c (q @ c # b) = q # split_chr c b"
  by (induction q) auto

lemma count_list_absent: "c \<notin> set s \<Longrightarrow> count_list s c = 0"
  by (induction s) auto

lemma count_list_one_split:
  "count_list s c = 1 \<Longrightarrow> \<exists>q b. s = q @ c # b \<and> c \<notin> set q \<and> c \<notin> set b"
proof (induction s)
  case Nil
  then show ?case by simp
next
  case (Cons x s)
  show ?case
  proof (cases "x = c")
    case True
    with Cons.prems have "count_list s c = 0" by simp
    then have "c \<notin> set s" by (simp add: count_list_0_iff)
    with True have "x # s = [] @ c # s \<and> c \<notin> set [] \<and> c \<notin> set s" by simp
    then show ?thesis by blast
  next
    case False
    with Cons.prems have "count_list s c = 1" by simp
    from Cons.IH [OF this] obtain q b where "s = q @ c # b" "c \<notin> set q" "c \<notin> set b" by blast
    with False have "x # s = (x # q) @ c # b \<and> c \<notin> set (x # q) \<and> c \<notin> set b" by auto
    then show ?thesis by blast
  qed
qed

lemma decompose_name_unqualified: "CHR ''.'' \<notin> set name \<Longrightarrow> decompose_name name = Inr (None, name)"
  by (simp add: decompose_name_def)

lemma decompose_name_qualified:
  "CHR ''.'' \<notin> set q \<Longrightarrow> CHR ''.'' \<notin> set b \<Longrightarrow>
   decompose_name (q @ CHR ''.'' # b) = Inr (Some q, b)"
  by (simp add: decompose_name_def count_list_absent split_chr_at split_chr_absent)

lemma decompose_name_malformed:
  "1 < count_list name CHR ''.'' \<Longrightarrow> decompose_name name = Inl (MalformedNameError name)"
  by (cases "CHR ''.'' \<in> set name") (simp_all add: decompose_name_def count_list_absent)

text \<open>The unpacking in the callers never fails: the \<open>ValueError\<close> of the model is not reached.\<close>

lemma decompose_name_unpacks: "decompose_name name \<noteq> Inl ValueError"
proof (cases "CHR ''.'' \<in> set name")
  case False
  then show ?thesis by (simp add: decompose_name_unqualified)
next
  case True
  then have pos: "0 < count_list name CHR ''.''"
    using count_list_0_iff [of name "CHR ''.''"] by simp
  show ?thesis
  proof (cases "1 < count_list name CHR ''.''")
    case True
    then show ?thesis by (simp add: decompose_name_malformed)
  next
    case False
    with pos have "count_list name CHR ''.'' = 1" by simp
    from count_list_one_split [OF this] obtain q b
      where "name = q @ CHR ''.'' # b" "CHR ''.'' \<notin> set q" "CHR ''.'' \<notin> set b" by blast
    then show ?thesis by (simp add: decompose_name_qualified)
  qed
qed

text \<open>
  C5. A name without a dot decomposes into no qualifier and the name itself. A name with
  exactly one dot decomposes into the part before the dot and the part after it. A
  name with more than one dot is refused, and the failure reports the name.
\<close>

theorem decompose_name_cases:
  "(CHR ''.'' \<notin> set name \<longrightarrow> decompose_name name = Inr (None, name)) \<and>
   (count_list name CHR ''.'' = 1 \<longrightarrow>
      (\<exists>q b. name = q @ CHR ''.'' # b \<and> decompose_name name = Inr (Some q, b))) \<and>
   (1 < count_list name CHR ''.'' \<longrightarrow> decompose_name name = Inl (MalformedNameError name))"
proof (intro conjI impI)
  assume "count_list name CHR ''.'' = 1"
  from count_list_one_split [OF this] obtain q b
    where "name = q @ CHR ''.'' # b" "CHR ''.'' \<notin> set q" "CHR ''.'' \<notin> set b" by blast
  then show "\<exists>q b. name = q @ CHR ''.'' # b \<and> decompose_name name = Inr (Some q, b)"
    using decompose_name_qualified by blast
qed (simp_all add: decompose_name_unqualified decompose_name_malformed)

theorem decompose_name_cases_witness:
  "decompose_name ''sky'' = Inr (None, ''sky'') \<and>
   (\<exists>q b. ''blues.sky'' = q @ CHR ''.'' # b \<and> decompose_name ''blues.sky'' = Inr (Some q, b)) \<and>
   decompose_name ''a.b.c'' = Inl (MalformedNameError ''a.b.c'')"
  using decompose_name_cases [of "''sky''"] decompose_name_cases [of "''blues.sky''"]
    decompose_name_cases [of "''a.b.c''"]
  by simp

subsection \<open>Resolving a color name\<close>

lemma get_color_for_name_unqualified:
  "CHR ''.'' \<notin> set ref \<Longrightarrow>
   get_color_for_name cm ref =
     (case all_colors cm ref of None \<Rightarrow> Inl (ColorNotFoundError ref None) | Some v \<Rightarrow> Inr v)"
  by (simp add: get_color_for_name_def decompose_name_unqualified)

lemma get_color_for_name_qualified:
  "CHR ''.'' \<notin> set qual \<Longrightarrow> CHR ''.'' \<notin> set name \<Longrightarrow>
   get_color_for_name cm (qual @ CHR ''.'' # name) =
     (case map_of (color_map cm) qual of
        None \<Rightarrow> Inl (GroupNotFoundError qual)
      | Some gr \<Rightarrow>
          (case map_of gr name of
             None \<Rightarrow> Inl (ColorNotFoundError name (Some qual))
           | Some v \<Rightarrow> Inr v))"
  by (simp add: get_color_for_name_def decompose_name_qualified)

text \<open>
  C3. For a reference without a qualifier, \<open>get_color_for_name\<close> returns the entry of
  the flattened table, and fails, with \<open>ColorNotFoundError\<close>, exactly when there is none.
  For a reference \<open>qual.name\<close> it fails with \<open>GroupNotFoundError\<close> exactly when no group
  has the key \<open>qual\<close>, fails with \<open>ColorNotFoundError\<close> exactly when that group has no
  entry for \<open>name\<close>, and otherwise returns the value that very group gives to \<open>name\<close>,
  whatever the other groups hold.
\<close>

theorem get_color_for_name_cases:
  "(CHR ''.'' \<notin> set ref \<longrightarrow>
      (\<forall>e. get_color_for_name cm ref = Inl e \<longleftrightarrow>
           all_colors cm ref = None \<and> e = ColorNotFoundError ref None) \<and>
      (\<forall>v. get_color_for_name cm ref = Inr v \<longleftrightarrow> all_colors cm ref = Some v)) \<and>
   (\<forall>qual name.
      ref = qual @ CHR ''.'' # name \<and> CHR ''.'' \<notin> set qual \<and> CHR ''.'' \<notin> set name \<longrightarrow>
      (\<forall>e. get_color_for_name cm ref = Inl e \<longleftrightarrow>
           (map_of (color_map cm) qual = None \<and> e = GroupNotFoundError qual) \<or>
           (\<exists>gr. map_of (color_map cm) qual = Some gr \<and> map_of gr name = None \<and>
                 e = ColorNotFoundError name (Some qual))) \<and>
      (\<forall>v. get_color_for_name cm ref = Inr v \<longleftrightarrow>
           (\<exists>gr. map_of (color_map cm) qual = Some gr \<and> map_of gr name = Some v)))"
proof (intro conjI impI allI)
  fix e
  assume "CHR ''.'' \<notin> set ref"
  then show "get_color_for_name cm ref = Inl e \<longleftrightarrow>
      all_colors cm ref = None \<and> e = ColorNotFoundError ref None"
    by (auto simp add: get_color_for_name_unqualified split: option.splits)
next
  fix v
  assume "CHR ''.'' \<notin> set ref"
  then show "get_color_for_name cm ref = Inr v \<longleftrightarrow> all_colors cm ref = Some v"
    by (auto simp add: get_color_for_name_unqualified split: option.splits)
next
  fix qual name e
  assume "ref = qual @ CHR ''.'' # name \<and> CHR ''.'' \<notin> set qual \<and> CHR ''.'' \<notin> set name"
  then show "get_color_for_name cm ref = Inl e \<longleftrightarrow>
      (map_of (color_map cm) qual = None \<and> e = GroupNotFoundError qual) \<or>
      (\<exists>gr. map_of (color_map cm) qual = Some gr \<and> map_of gr name = None \<and>
            e = ColorNotFoundError name (Some qual))"
    by (auto simp add: get_color_for_name_qualified split: option.splits)
next
  fix qual name v
  assume "ref = qual @ CHR ''.'' # name \<and> CHR ''.'' \<notin> set qual \<and> CHR ''.'' \<notin> set name"
  then show "get_color_for_name cm ref = Inr v \<longleftrightarrow>
      (\<exists>gr. map_of (color_map cm) qual = Some gr \<and> map_of gr name = Some v)"
    by (auto simp add: get_color_for_name_qualified split: option.splits)
qed

theorem get_color_for_name_cases_witness:
  "get_color_for_name
     (init [(''blues'', [(''sky'', ''#87ceeb'')]),
            (''greys'', [(''sky'', ''#708090''), (''slate'', ''#626388'')])] [])
     ''sky'' = Inr ''#87ceeb'' \<and>
   get_color_for_name
     (init [(''blues'', [(''sky'', ''#87ceeb'')]),
            (''greys'', [(''sky'', ''#708090''), (''slate'', ''#626388'')])] [])
     ''greys.sky'' = Inr ''#708090'' \<and>
   get_color_for_name
     (init [(''blues'', [(''sky'', ''#87ceeb'')]),
            (''greys'', [(''sky'', ''#708090''), (''slate'', ''#626388'')])] [])
     ''reds.sky'' = Inl (GroupNotFoundError ''reds'')"
  using
    get_color_for_name_cases [of "''sky''"
      "init [(''blues'', [(''sky'', ''#87ceeb'')]),
             (''greys'', [(''sky'', ''#708090''), (''slate'', ''#626388'')])] []"]
    get_color_for_name_cases [of "''greys.sky''"
      "init [(''blues'', [(''sky'', ''#87ceeb'')]),
             (''greys'', [(''sky'', ''#708090''), (''slate'', ''#626388'')])] []",
      THEN conjunct2, rule_format, of "''greys''" "''sky''"]
    get_color_for_name_cases [of "''reds.sky''"
      "init [(''blues'', [(''sky'', ''#87ceeb'')]),
             (''greys'', [(''sky'', ''#708090''), (''slate'', ''#626388'')])] []",
      THEN conjunct2, rule_format, of "''reds''" "''sky''"]
  by (simp add: init_def)

subsection \<open>The flattened table\<close>

lemma add_group_present: "ac name = Some v \<Longrightarrow> add_group ac gr name = Some v"
proof (induction gr arbitrary: ac)
  case Nil
  then show ?case by simp
next
  case (Cons item items)
  obtain n w where item: "item = (n, w)" by (cases item)
  let ?ac = "if ac n = None then ac(n \<mapsto> w) else ac"
  from Cons.prems have "?ac name = Some v" by auto
  then have "add_group ?ac items name = Some v" by (rule Cons.IH)
  with item show ?case by simp
qed

lemma add_group_absent: "ac name = None \<Longrightarrow> add_group ac gr name = map_of gr name"
  by (induction ac gr rule: add_group.induct) (auto simp add: add_group_present)

lemma add_groups_present: "ac name = Some v \<Longrightarrow> add_groups ac groups name = Some v"
  by (induction ac groups rule: add_groups.induct) (auto simp add: add_group_present)

lemma add_groups_append: "add_groups ac (xs @ ys) = add_groups (add_groups ac xs) ys"
  by (induction ac xs rule: add_groups.induct) auto

lemma add_groups_absent:
  "ac name = None \<Longrightarrow> \<forall>g \<in> snd ` set groups. map_of g name = None \<Longrightarrow>
   add_groups ac groups name = None"
  by (induction ac groups rule: add_groups.induct) (auto simp add: add_group_absent)

lemma add_groups_first:
  assumes "ac name = None"
    and "\<forall>g \<in> snd ` set before. map_of g name = None"
    and "map_of gr name = Some v"
  shows "add_groups ac (before @ (key, gr) # after) name = Some v"
proof -
  have "add_groups ac before name = None"
    using assms(1,2) by (rule add_groups_absent)
  then have "add_group (add_groups ac before) gr name = Some v"
    using assms(3) by (simp add: add_group_absent)
  then show ?thesis
    by (simp add: add_groups_append add_groups_present)
qed

text \<open>
  C2. The constructor fills the flattened table group after group, in the order of the
  groups, and never overwrites an entry. So when a group gives a value to a name that no
  group before it defines, the flattened table holds that value, whatever the groups
  after it say, and an unqualified \<open>get_color_for_name\<close> returns it.
\<close>

theorem first_group_wins:
  assumes "\<forall>g \<in> snd ` set before. map_of g name = None"
    and "map_of gr name = Some v"
  shows "all_colors (init (before @ (key, gr) # after) bnds) name = Some v \<and>
         (CHR ''.'' \<notin> set name \<longrightarrow>
            get_color_for_name (init (before @ (key, gr) # after) bnds) name = Inr v)"
proof -
  have "all_colors (init (before @ (key, gr) # after) bnds) name = Some v"
    using assms by (simp add: init_def add_groups_first)
  then show ?thesis
    by (simp add: get_color_for_name_unqualified)
qed

theorem first_group_wins_witness:
  "all_colors (init ([(''blues'', [(''navy'', ''#000080'')])] @
       (''greys'', [(''slate'', ''#626388'')]) # [(''greens'', [(''slate'', ''#2f4f4f'')])]) [])
     ''slate'' = Some ''#626388'' \<and>
   get_color_for_name (init ([(''blues'', [(''navy'', ''#000080'')])] @
       (''greys'', [(''slate'', ''#626388'')]) # [(''greens'', [(''slate'', ''#2f4f4f'')])]) [])
     ''slate'' = Inr ''#626388''"
  using first_group_wins [of "[(''blues'', [(''navy'', ''#000080'')])]" "''slate''"
      "[(''slate'', ''#626388'')]" "''#626388''" "''greys''"
      "[(''greens'', [(''slate'', ''#2f4f4f'')])]" "[]"]
  by simp

subsection \<open>Resolving a binding\<close>

lemma get_color_name_for_binding_unqualified:
  "CHR ''.'' \<notin> set ref \<Longrightarrow>
   get_color_name_for_binding cm ref = Inl (UnqualifiedBindingError ref)"
  by (simp add: get_color_name_for_binding_def decompose_name_unqualified)

lemma get_color_name_for_binding_qualified:
  "CHR ''.'' \<notin> set qual \<Longrightarrow> CHR ''.'' \<notin> set name \<Longrightarrow>
   get_color_name_for_binding cm (qual @ CHR ''.'' # name) =
     (case map_of (bindings cm) qual of
        None \<Rightarrow> Inl (CategoryNotFoundError qual)
      | Some cat \<Rightarrow>
          (case map_of cat name of
             None \<Rightarrow> Inl (ElementNotFoundError name qual)
           | Some v \<Rightarrow> Inr v))"
  by (simp add: get_color_name_for_binding_def decompose_name_qualified)

lemma get_color_name_for_binding_unqualified_iff:
  "get_color_name_for_binding cm ref = Inl (UnqualifiedBindingError x) \<longleftrightarrow>
     CHR ''.'' \<notin> set ref \<and> x = ref"
  by (auto simp add: get_color_name_for_binding_def decompose_name_def
      split: sum.splits option.splits list.splits if_splits)

text \<open>
  C4. \<open>get_color_name_for_binding\<close> fails with \<open>UnqualifiedBindingError\<close> exactly when
  the reference has no dot. For a reference \<open>qual.name\<close> it fails with
  \<open>CategoryNotFoundError\<close> exactly when no category has the key \<open>qual\<close>, fails with
  \<open>ElementNotFoundError\<close> exactly when that category has no entry for \<open>name\<close>, and
  otherwise returns the color name bound there, as it is stored and not resolved.
\<close>

theorem get_color_name_for_binding_cases:
  "(\<forall>x. get_color_name_for_binding cm ref = Inl (UnqualifiedBindingError x) \<longleftrightarrow>
        CHR ''.'' \<notin> set ref \<and> x = ref) \<and>
   (\<forall>qual name.
      ref = qual @ CHR ''.'' # name \<and> CHR ''.'' \<notin> set qual \<and> CHR ''.'' \<notin> set name \<longrightarrow>
      (\<forall>e. get_color_name_for_binding cm ref = Inl e \<longleftrightarrow>
           (map_of (bindings cm) qual = None \<and> e = CategoryNotFoundError qual) \<or>
           (\<exists>cat. map_of (bindings cm) qual = Some cat \<and> map_of cat name = None \<and>
                  e = ElementNotFoundError name qual)) \<and>
      (\<forall>v. get_color_name_for_binding cm ref = Inr v \<longleftrightarrow>
           (\<exists>cat. map_of (bindings cm) qual = Some cat \<and> map_of cat name = Some v)))"
proof (intro conjI impI allI)
  fix x
  show "get_color_name_for_binding cm ref = Inl (UnqualifiedBindingError x) \<longleftrightarrow>
      CHR ''.'' \<notin> set ref \<and> x = ref"
    by (rule get_color_name_for_binding_unqualified_iff)
next
  fix qual name e
  assume "ref = qual @ CHR ''.'' # name \<and> CHR ''.'' \<notin> set qual \<and> CHR ''.'' \<notin> set name"
  then show "get_color_name_for_binding cm ref = Inl e \<longleftrightarrow>
      (map_of (bindings cm) qual = None \<and> e = CategoryNotFoundError qual) \<or>
      (\<exists>cat. map_of (bindings cm) qual = Some cat \<and> map_of cat name = None \<and>
             e = ElementNotFoundError name qual)"
    by (auto simp add: get_color_name_for_binding_qualified split: option.splits)
next
  fix qual name v
  assume "ref = qual @ CHR ''.'' # name \<and> CHR ''.'' \<notin> set qual \<and> CHR ''.'' \<notin> set name"
  then show "get_color_name_for_binding cm ref = Inr v \<longleftrightarrow>
      (\<exists>cat. map_of (bindings cm) qual = Some cat \<and> map_of cat name = Some v)"
    by (auto simp add: get_color_name_for_binding_qualified split: option.splits)
qed

theorem get_color_name_for_binding_cases_witness:
  "get_color_name_for_binding (init [] [(''ui'', [(''border'', ''sky'')])]) ''border'' =
     Inl (UnqualifiedBindingError ''border'') \<and>
   get_color_name_for_binding (init [] [(''ui'', [(''border'', ''sky'')])]) ''ui.border'' =
     Inr ''sky'' \<and>
   get_color_name_for_binding (init [] [(''ui'', [(''border'', ''sky'')])]) ''ui.text'' =
     Inl (ElementNotFoundError ''text'' ''ui'')"
  using
    get_color_name_for_binding_cases [of "init [] [(''ui'', [(''border'', ''sky'')])]"
      "''border''", THEN conjunct1, rule_format, of "''border''"]
    get_color_name_for_binding_cases [of "init [] [(''ui'', [(''border'', ''sky'')])]"
      "''ui.border''", THEN conjunct2, rule_format, of "''ui''" "''border''"]
    get_color_name_for_binding_cases [of "init [] [(''ui'', [(''border'', ''sky'')])]"
      "''ui.text''", THEN conjunct2, rule_format, of "''ui''" "''text''"]
  by (simp add: init_def)

subsection \<open>From a binding to a color\<close>

text \<open>
  C6. \<open>get_color_for_binding\<close> is \<open>get_color_for_name\<close> after
  \<open>get_color_name_for_binding\<close>: a failure of the first stage is the result, and
  otherwise the result is whatever the second stage gives on the color name, its
  failures included.
\<close>

theorem get_color_for_binding_composition:
  "(\<forall>e. get_color_name_for_binding cm ref = Inl e \<longrightarrow> get_color_for_binding cm ref = Inl e) \<and>
   (\<forall>color. get_color_name_for_binding cm ref = Inr color \<longrightarrow>
      get_color_for_binding cm ref = get_color_for_name cm color)"
  by (simp add: get_color_for_binding_def)

theorem get_color_for_binding_composition_witness:
  "get_color_for_binding (init [(''blues'', [(''sky'', ''#87ceeb'')])]
      [(''ui'', [(''border'', ''sky''), (''text'', ''ink'')])]) ''border'' =
     Inl (UnqualifiedBindingError ''border'') \<and>
   get_color_for_binding (init [(''blues'', [(''sky'', ''#87ceeb'')])]
      [(''ui'', [(''border'', ''sky''), (''text'', ''ink'')])]) ''ui.border'' = Inr ''#87ceeb'' \<and>
   get_color_for_binding (init [(''blues'', [(''sky'', ''#87ceeb'')])]
      [(''ui'', [(''border'', ''sky''), (''text'', ''ink'')])]) ''ui.text'' =
     Inl (ColorNotFoundError ''ink'' None)"
proof -
  let ?cm = "init [(''blues'', [(''sky'', ''#87ceeb'')])]
      [(''ui'', [(''border'', ''sky''), (''text'', ''ink'')])]"
  have a: "get_color_name_for_binding ?cm ''border'' = Inl (UnqualifiedBindingError ''border'')"
    by (simp add: get_color_name_for_binding_def decompose_name_def init_def)
  have b: "get_color_name_for_binding ?cm ''ui.border'' = Inr ''sky''"
    by (simp add: get_color_name_for_binding_def decompose_name_def init_def)
  have c: "get_color_name_for_binding ?cm ''ui.text'' = Inr ''ink''"
    by (simp add: get_color_name_for_binding_def decompose_name_def init_def)
  have "get_color_for_name ?cm ''sky'' = Inr ''#87ceeb''"
    and "get_color_for_name ?cm ''ink'' = Inl (ColorNotFoundError ''ink'' None)"
    by (simp_all add: get_color_for_name_def decompose_name_def init_def)
  with get_color_for_binding_composition [of ?cm "''border''", THEN conjunct1, rule_format, OF a]
    get_color_for_binding_composition [of ?cm "''ui.border''", THEN conjunct2, rule_format, OF b]
    get_color_for_binding_composition [of ?cm "''ui.text''", THEN conjunct2, rule_format, OF c]
  show ?thesis by simp
qed

section \<open>Properties of the pass over a theme\<close>

subsection \<open>The pass, stage by stage\<close>

lemma apply_to_theme_JObj:
  "apply_to_theme cm (JObj fs) =
     (case map_of fs ''colors'' of
        None \<Rightarrow> Inl (KeyError ''colors'')
      | Some c \<Rightarrow>
          (case rewrite_colors cm c of
             Inl e \<Rightarrow> Inl e
           | Inr c' \<Rightarrow>
               (case map_of fs ''tokenColors'' of
                  None \<Rightarrow> Inl (KeyError ''tokenColors'')
                | Some tc \<Rightarrow>
                    (case rewrite_token_colors cm tc of
                       Inl e \<Rightarrow> Inl e
                     | Inr tc' \<Rightarrow>
                         Inr (JObj (AList.update ''tokenColors'' tc'
                                (AList.update ''colors'' c' fs)))))))"
  by (simp add: apply_to_theme_def update_conv' split: option.splits sum.splits)

lemma apply_to_theme_InrD:
  assumes "apply_to_theme cm theme = Inr theme'"
  shows "\<exists>fs c c' tc tc'. theme = JObj fs \<and>
           map_of fs ''colors'' = Some c \<and> rewrite_colors cm c = Inr c' \<and>
           map_of fs ''tokenColors'' = Some tc \<and> rewrite_token_colors cm tc = Inr tc' \<and>
           theme' = JObj (AList.update ''tokenColors'' tc' (AList.update ''colors'' c' fs))"
proof (cases theme)
  case (JObj fs)
  with assms show ?thesis
    by (auto simp add: apply_to_theme_JObj split: option.splits sum.splits)
qed (use assms in \<open>simp_all add: apply_to_theme_def\<close>)

subsection \<open>Documents without references\<close>

lemma resolve_value_literal: "is_literal v \<Longrightarrow> resolve_value cm v = Inr None"
  by (cases v) simp_all

lemma colors_dict_loop_literal:
  "\<forall>k \<in> set ks. \<exists>v. map_of cs k = Some v \<and> is_literal v \<Longrightarrow>
   colors_dict_loop cm ks cs = Inr cs"
  by (induction ks) (auto simp add: resolve_value_literal)

lemma literal_entries:
  assumes "list_all (\<lambda>kv. is_literal (snd kv)) cs" and "k \<in> set (map fst cs)"
  shows "\<exists>v. map_of cs k = Some v \<and> is_literal v"
proof -
  from assms(2) obtain v where v: "map_of cs k = Some v"
    by (metis map_of_eq_None_iff not_Some_eq set_map)
  then have "(k, v) \<in> set cs" by (rule map_of_SomeD)
  with assms(1) have "is_literal v" by (auto simp add: list_all_iff)
  with v show ?thesis by blast
qed

lemma rewrite_colors_literal:
  "list_all (\<lambda>kv. is_literal (snd kv)) cs \<Longrightarrow> rewrite_colors cm (JObj cs) = Inr (JObj cs)"
  by (simp add: colors_dict_loop_literal literal_entries)

lemma rewrite_field_literal:
  "literal_field key st \<Longrightarrow> rewrite_field cm key (JObj st) = Inr (JObj st)"
  by (auto simp add: rewrite_field_def literal_field_def resolve_value_literal
      split: option.splits)

lemma process_rule_literal:
  assumes "literal_rule r"
  shows "process_rule cm r = Inr r"
proof -
  from assms obtain rf where r: "r = JObj rf"
    by (cases r) (simp_all add: literal_rule_def)
  show ?thesis
  proof (cases "map_of rf ''settings''")
    case None
    with r show ?thesis by (simp add: process_rule_def)
  next
    case (Some st)
    with assms r obtain sf where st: "st = JObj sf"
      by (cases st) (simp_all add: literal_rule_def)
    with assms r Some have "literal_field ''foreground'' sf" "literal_field ''background'' sf"
      by (simp_all add: literal_rule_def)
    with r Some st show ?thesis
      by (simp add: process_rule_def rewrite_field_literal update_triv)
  qed
qed

lemma rules_loop_literal: "list_all literal_rule rules \<Longrightarrow> rules_loop cm rules = Inr rules"
  by (induction rules) (auto simp add: process_rule_literal)

lemma apply_to_theme_literal:
  assumes "literal_theme theme"
  shows "apply_to_theme cm theme = Inr theme"
proof -
  from assms obtain fs where theme: "theme = JObj fs"
    by (cases theme) (simp_all add: literal_theme_def)
  from assms theme obtain c where c: "map_of fs ''colors'' = Some c"
    by (cases "map_of fs ''colors''") (simp_all add: literal_theme_def)
  from assms theme c obtain cs where cs: "c = JObj cs"
    by (cases c) (simp_all add: literal_theme_def)
  from assms theme c cs have lit: "list_all (\<lambda>kv. is_literal (snd kv)) cs"
    by (simp add: literal_theme_def)
  from assms theme c cs obtain tc where tc: "map_of fs ''tokenColors'' = Some tc"
    by (cases "map_of fs ''tokenColors''") (simp_all add: literal_theme_def)
  from assms theme c cs tc obtain rules where rules: "tc = JArr rules"
    by (cases tc) (simp_all add: literal_theme_def)
  from assms theme c cs tc rules have "list_all literal_rule rules"
    by (simp add: literal_theme_def)
  then have "rewrite_token_colors cm tc = Inr tc"
    using rules by (simp add: rules_loop_literal)
  moreover have "rewrite_colors cm c = Inr c"
    using lit cs by (simp only: rewrite_colors_literal)
  ultimately show ?thesis
    using theme c tc by (simp add: apply_to_theme_JObj update_triv)
qed

text \<open>
  C7. On a theme document in which every value of \<open>colors\<close> and every \<open>foreground\<close> and
  \<open>background\<close> of a \<open>settings\<close> object already starts with \<open>#\<close>, the pass succeeds
  and returns the document it was given. In particular the test the pass makes on a
  string that starts with \<open>#\<close> asks for no assignment.
\<close>

theorem literal_theme_unchanged:
  "(literal_theme (theme :: 'f json) \<longrightarrow> apply_to_theme cm theme = Inr theme) \<and>
   (startswith_hash s \<longrightarrow> resolve_value cm (JStr s :: 'f json) = Inr None)"
  by (simp add: apply_to_theme_literal)

theorem literal_theme_unchanged_witness:
  "apply_to_theme (init [(''blues'', [(''sky'', ''#87ceeb'')])] [(''ui'', [(''border'', ''sky'')])])
     (JObj [(''name'', JStr ''Blue''),
            (''colors'', JObj [(''panel.border'', JStr ''#ffffff'')]),
            (''tokenColors'',
               JArr [JObj [(''scope'', JStr ''comment''),
                           (''settings'', JObj [(''foreground'', JStr ''#626388''),
                                                (''fontStyle'', JStr ''italic'')])],
                     JObj [(''scope'', JStr ''string'')]])] :: unit json)
   = Inr (JObj [(''name'', JStr ''Blue''),
            (''colors'', JObj [(''panel.border'', JStr ''#ffffff'')]),
            (''tokenColors'',
               JArr [JObj [(''scope'', JStr ''comment''),
                           (''settings'', JObj [(''foreground'', JStr ''#626388''),
                                                (''fontStyle'', JStr ''italic'')])],
                     JObj [(''scope'', JStr ''string'')]])]) \<and>
   resolve_value (init [(''blues'', [(''sky'', ''#87ceeb'')])] [(''ui'', [(''border'', ''sky'')])])
     (JStr ''#ffffff'' :: unit json) = Inr None"
proof -
  let ?theme = "JObj [(''name'', JStr ''Blue''),
            (''colors'', JObj [(''panel.border'', JStr ''#ffffff'')]),
            (''tokenColors'',
               JArr [JObj [(''scope'', JStr ''comment''),
                           (''settings'', JObj [(''foreground'', JStr ''#626388''),
                                                (''fontStyle'', JStr ''italic'')])],
                     JObj [(''scope'', JStr ''string'')]])] :: unit json"
  have "literal_theme ?theme"
    by (simp add: literal_theme_def literal_rule_def literal_field_def)
  moreover have "startswith_hash ''#ffffff''" by simp
  ultimately show ?thesis
    using literal_theme_unchanged [of ?theme
        "init [(''blues'', [(''sky'', ''#87ceeb'')])] [(''ui'', [(''border'', ''sky'')])]"
        "''#ffffff''"]
    by blast
qed

subsection \<open>What the pass does to each value\<close>

lemma resolve_value_rewritten:
  "resolve_value cm v = Inr None \<Longrightarrow> rewritten cm v v"
  "resolve_value cm v = Inr (Some v') \<Longrightarrow> rewritten cm v v'"
  by (cases v; auto simp add: rewritten_def split: if_splits sum.splits)+

lemma update_at:
  "k \<notin> fst ` set pre \<Longrightarrow> AList.update k v' (pre @ (k, v) # rest) = pre @ (k, v') # rest"
  by (induction pre) auto

lemma map_of_at: "k \<notin> fst ` set pre \<Longrightarrow> map_of (pre @ (k, v) # rest) k = Some v"
  by (induction pre) auto

lemma colors_dict_loop_entries:
  assumes "distinct (map fst (pre @ todo))"
    and "colors_dict_loop cm (map fst todo) (pre @ todo) = Inr cs'"
  shows "\<exists>todo'. cs' = pre @ todo' \<and>
           list_all2 (\<lambda>kv kv'. fst kv' = fst kv \<and> rewritten cm (snd kv) (snd kv')) todo todo'"
  using assms
proof (induction todo arbitrary: pre)
  case Nil
  then show ?case by simp
next
  case (Cons kv todo)
  obtain k v where kv: "kv = (k, v)" by (cases kv)
  from Cons.prems(1) kv have notin: "k \<notin> fst ` set pre" by auto
  then have look: "map_of (pre @ (k, v) # todo) k = Some v" by (rule map_of_at)
  from Cons.prems(2) kv look obtain r where r: "resolve_value cm v = Inr r"
    by (cases "resolve_value cm v") simp_all
  show ?case
  proof (cases r)
    case None
    from Cons.prems(1) kv have d: "distinct (map fst ((pre @ [(k, v)]) @ todo))" by simp
    from Cons.prems(2) kv look r None
    have "colors_dict_loop cm (map fst todo) ((pre @ [(k, v)]) @ todo) = Inr cs'" by simp
    from Cons.IH [OF d this] obtain todo' where
      "cs' = (pre @ [(k, v)]) @ todo'"
      "list_all2 (\<lambda>kv kv'. fst kv' = fst kv \<and> rewritten cm (snd kv) (snd kv')) todo todo'"
      by blast
    moreover from r None have "rewritten cm v v" by (simp add: resolve_value_rewritten)
    ultimately have "cs' = pre @ ((k, v) # todo') \<and>
      list_all2 (\<lambda>kv kv'. fst kv' = fst kv \<and> rewritten cm (snd kv) (snd kv'))
        (kv # todo) ((k, v) # todo')"
      using kv by simp
    then show ?thesis by blast
  next
    case (Some v')
    from Cons.prems(1) kv have d: "distinct (map fst ((pre @ [(k, v')]) @ todo))" by simp
    from Cons.prems(2) kv look r Some
    have "colors_dict_loop cm (map fst todo) (AList.update k v' (pre @ (k, v) # todo)) = Inr cs'"
      by simp
    then have "colors_dict_loop cm (map fst todo) ((pre @ [(k, v')]) @ todo) = Inr cs'"
      using notin by (simp add: update_at)
    from Cons.IH [OF d this] obtain todo' where
      "cs' = (pre @ [(k, v')]) @ todo'"
      "list_all2 (\<lambda>kv kv'. fst kv' = fst kv \<and> rewritten cm (snd kv) (snd kv')) todo todo'"
      by blast
    moreover from r Some have "rewritten cm v v'" by (simp add: resolve_value_rewritten)
    ultimately have "cs' = pre @ ((k, v') # todo') \<and>
      list_all2 (\<lambda>kv kv'. fst kv' = fst kv \<and> rewritten cm (snd kv) (snd kv'))
        (kv # todo) ((k, v') # todo')"
      using kv by simp
    then show ?thesis by blast
  qed
qed

lemma rewrite_colors_entries:
  assumes "distinct (map fst cs)" and "rewrite_colors cm (JObj cs) = Inr c'"
  shows "\<exists>cs'. c' = JObj cs' \<and>
           list_all2 (\<lambda>kv kv'. fst kv' = fst kv \<and> rewritten cm (snd kv) (snd kv')) cs cs'"
proof -
  from assms(2) obtain cs' where c': "c' = JObj cs'"
    and loop: "colors_dict_loop cm (map fst cs) ([] @ cs) = Inr cs'"
    by (auto split: sum.splits)
  from assms(1) have "distinct (map fst ([] @ cs))" by simp
  from colors_dict_loop_entries [OF this loop] c' show ?thesis by simp
qed

lemma rewrite_field_JObj:
  "rewrite_field cm key (JObj st) =
     (case map_of st key of
        None \<Rightarrow> Inr (JObj st)
      | Some v \<Rightarrow>
          (case resolve_value cm v of
             Inl e \<Rightarrow> Inl e
           | Inr None \<Rightarrow> Inr (JObj st)
           | Inr (Some v') \<Rightarrow> Inr (JObj (AList.update key v' st))))"
  by (simp add: rewrite_field_def split: option.splits sum.splits)

lemma rewrite_field_result:
  assumes "rewrite_field cm key (JObj st) = Inr s'"
  shows "\<exists>st'. s' = JObj st' \<and> field_rewritten cm key st st' \<and>
           (\<forall>k. k \<noteq> key \<longrightarrow> map_of st' k = map_of st k)"
proof (cases "map_of st key")
  case None
  with assms show ?thesis by (auto simp add: rewrite_field_JObj field_rewritten_def)
next
  case (Some v)
  with assms obtain r where r: "resolve_value cm v = Inr r"
    by (cases "resolve_value cm v") (simp_all add: rewrite_field_JObj)
  show ?thesis
  proof (cases r)
    case None
    with assms \<open>map_of st key = Some v\<close> r show ?thesis
      by (auto simp add: rewrite_field_JObj field_rewritten_def resolve_value_rewritten)
  next
    case (Some v')
    with assms \<open>map_of st key = Some v\<close> r show ?thesis
      by (auto simp add: rewrite_field_JObj field_rewritten_def resolve_value_rewritten
          update_conv')
  qed
qed

lemma process_rule_JObj:
  "process_rule cm (JObj rf) =
     (case map_of rf ''settings'' of
        None \<Rightarrow> Inr (JObj rf)
      | Some settings \<Rightarrow>
          (case rewrite_field cm ''foreground'' settings of
             Inl e \<Rightarrow> Inl e
           | Inr settings1 \<Rightarrow>
               (case rewrite_field cm ''background'' settings1 of
                  Inl e \<Rightarrow> Inl e
                | Inr settings2 \<Rightarrow> Inr (JObj (AList.update ''settings'' settings2 rf)))))"
  by (simp add: process_rule_def split: option.splits sum.splits)

lemma process_rule_rewritten:
  assumes "process_rule cm r = Inr r'"
  shows "rule_rewritten cm r r'"
proof (cases r)
  case (JObj rf)
  show ?thesis
  proof (cases "map_of rf ''settings''")
    case None
    with JObj show ?thesis by (simp add: rule_rewritten_def)
  next
    case (Some s)
    show ?thesis
    proof (cases s)
      case (JObj st)
      from assms \<open>r = JObj rf\<close> Some JObj obtain s1 s2
        where s1: "rewrite_field cm ''foreground'' (JObj st) = Inr s1"
          and s2: "rewrite_field cm ''background'' s1 = Inr s2"
          and r': "r' = JObj (AList.update ''settings'' s2 rf)"
        by (auto simp add: process_rule_JObj split: sum.splits)
      from rewrite_field_result [OF s1] obtain st1 where st1: "s1 = JObj st1"
        "field_rewritten cm ''foreground'' st st1"
        "map_of st1 ''background'' = map_of st ''background''"
        by auto
      from rewrite_field_result [OF s2 [unfolded st1(1)]] obtain st2 where st2: "s2 = JObj st2"
        "field_rewritten cm ''background'' st1 st2"
        "map_of st2 ''foreground'' = map_of st1 ''foreground''"
        by auto
      have "field_rewritten cm ''foreground'' st st2"
        using st1(2) st2(3) by (auto simp add: field_rewritten_def split: option.splits)
      moreover have "field_rewritten cm ''background'' st st2"
        using st2(2) st1(3) by (auto simp add: field_rewritten_def split: option.splits)
      ultimately show ?thesis
        using \<open>r = JObj rf\<close> Some JObj r' st2(1)
        by (simp add: rule_rewritten_def update_conv')
    qed (use \<open>r = JObj rf\<close> Some in \<open>simp_all add: rule_rewritten_def\<close>)
  qed
qed (simp_all add: rule_rewritten_def)

lemma rules_loop_each:
  "rules_loop cm rules = Inr rules' \<Longrightarrow>
   list_all2 (\<lambda>r r'. process_rule cm r = Inr r') rules rules'"
  by (induction rules arbitrary: rules') (auto split: sum.splits)

lemma rules_loop_rewritten:
  assumes "rules_loop cm rules = Inr rules'"
  shows "list_all2 (rule_rewritten cm) rules rules'"
  using rules_loop_each [OF assms]
  by (rule list_all2_mono) (rule process_rule_rewritten)

subsection \<open>The pass succeeds where every value can be rewritten\<close>

lemma resolvable_resolves: "resolvable cm v \<Longrightarrow> \<exists>r. resolve_value cm v = Inr r"
  by (cases v) (auto simp add: resolvable_def split: sum.splits)

lemma colors_dict_loop_succeeds:
  assumes "distinct (map fst (pre @ todo))"
    and "list_all (\<lambda>kv. resolvable cm (snd kv)) todo"
  shows "\<exists>cs'. colors_dict_loop cm (map fst todo) (pre @ todo) = Inr cs'"
  using assms
proof (induction todo arbitrary: pre)
  case Nil
  then show ?case by simp
next
  case (Cons kv todo)
  obtain k v where kv: "kv = (k, v)" by (cases kv)
  from Cons.prems(1) kv have notin: "k \<notin> fst ` set pre" by auto
  then have look: "map_of (pre @ (k, v) # todo) k = Some v" by (rule map_of_at)
  from Cons.prems(2) kv obtain r where r: "resolve_value cm v = Inr r"
    using resolvable_resolves by fastforce
  from Cons.prems(2) have rest: "list_all (\<lambda>kv. resolvable cm (snd kv)) todo" by simp
  show ?case
  proof (cases r)
    case None
    from Cons.prems(1) kv have "distinct (map fst ((pre @ [(k, v)]) @ todo))" by simp
    from Cons.IH [OF this rest] kv look r None show ?thesis by simp
  next
    case (Some v')
    from Cons.prems(1) kv have "distinct (map fst ((pre @ [(k, v')]) @ todo))" by simp
    from Cons.IH [OF this rest] obtain cs'
      where "colors_dict_loop cm (map fst todo) ((pre @ [(k, v')]) @ todo) = Inr cs'" by blast
    with notin have "colors_dict_loop cm (map fst todo)
        (AList.update k v' (pre @ (k, v) # todo)) = Inr cs'"
      by (simp add: update_at)
    with kv look r Some show ?thesis by simp
  qed
qed

lemma rewrite_colors_succeeds:
  assumes "distinct (map fst cs)" and "list_all (\<lambda>kv. resolvable cm (snd kv)) cs"
  shows "\<exists>c'. rewrite_colors cm (JObj cs) = Inr c'"
proof -
  from assms(1) have "distinct (map fst ([] @ cs))" by simp
  from colors_dict_loop_succeeds [OF this assms(2)] show ?thesis by auto
qed

lemma rewrite_field_succeeds:
  assumes "resolvable_field cm key st"
  shows "\<exists>st'. rewrite_field cm key (JObj st) = Inr (JObj st') \<and>
           (\<forall>k. k \<noteq> key \<longrightarrow> map_of st' k = map_of st k)"
proof -
  have "\<exists>s'. rewrite_field cm key (JObj st) = Inr s'"
  proof (cases "map_of st key")
    case None
    then show ?thesis by (simp add: rewrite_field_JObj)
  next
    case (Some v)
    with assms obtain r where "resolve_value cm v = Inr r"
      using resolvable_resolves by (fastforce simp add: resolvable_field_def)
    with Some show ?thesis by (cases r) (simp_all add: rewrite_field_JObj)
  qed
  then obtain s' where s': "rewrite_field cm key (JObj st) = Inr s'" by blast
  from rewrite_field_result [OF s'] s' show ?thesis by auto
qed

lemma process_rule_succeeds:
  assumes "resolvable_rule cm r"
  shows "\<exists>r'. process_rule cm r = Inr r'"
proof -
  from assms obtain rf where r: "r = JObj rf"
    by (cases r) (simp_all add: resolvable_rule_def)
  show ?thesis
  proof (cases "map_of rf ''settings''")
    case None
    with r show ?thesis by (simp add: process_rule_JObj)
  next
    case (Some s)
    with assms r obtain st where st: "s = JObj st"
      by (cases s) (simp_all add: resolvable_rule_def)
    with assms r Some have fg: "resolvable_field cm ''foreground'' st"
      and bg: "resolvable_field cm ''background'' st"
      by (simp_all add: resolvable_rule_def)
    from rewrite_field_succeeds [OF fg] obtain st1
      where st1: "rewrite_field cm ''foreground'' (JObj st) = Inr (JObj st1)"
        "map_of st1 ''background'' = map_of st ''background''"
      by auto
    from bg st1(2) have "resolvable_field cm ''background'' st1"
      by (simp add: resolvable_field_def)
    from rewrite_field_succeeds [OF this] obtain st2
      where "rewrite_field cm ''background'' (JObj st1) = Inr (JObj st2)" by blast
    with r Some st st1(1) show ?thesis by (simp add: process_rule_JObj)
  qed
qed

lemma rules_loop_succeeds:
  "list_all (resolvable_rule cm) rules \<Longrightarrow> \<exists>rules'. rules_loop cm rules = Inr rules'"
proof (induction rules)
  case Nil
  then show ?case by simp
next
  case (Cons r rules)
  from Cons.prems obtain r' where "process_rule cm r = Inr r'"
    using process_rule_succeeds by fastforce
  moreover from Cons obtain rules' where "rules_loop cm rules = Inr rules'" by auto
  ultimately show ?case by simp
qed

lemma apply_to_theme_succeeds:
  assumes "resolvable_theme cm theme"
  shows "\<exists>theme'. apply_to_theme cm theme = Inr theme'"
proof -
  from assms obtain fs where theme: "theme = JObj fs"
    by (cases theme) (simp_all add: resolvable_theme_def)
  from assms theme obtain c where c: "map_of fs ''colors'' = Some c"
    by (cases "map_of fs ''colors''") (simp_all add: resolvable_theme_def)
  from assms theme c obtain cs where cs: "c = JObj cs"
    by (cases c) (simp_all add: resolvable_theme_def)
  from assms theme c cs have d: "distinct (map fst cs)"
    and res: "list_all (\<lambda>kv. resolvable cm (snd kv)) cs"
    by (simp_all add: resolvable_theme_def)
  from assms theme c cs obtain tc where tc: "map_of fs ''tokenColors'' = Some tc"
    by (cases "map_of fs ''tokenColors''") (simp_all add: resolvable_theme_def)
  from assms theme c cs tc obtain rules where rules: "tc = JArr rules"
    by (cases tc) (simp_all add: resolvable_theme_def)
  from assms theme c cs tc rules have "list_all (resolvable_rule cm) rules"
    by (simp add: resolvable_theme_def)
  from rules_loop_succeeds [OF this] rules obtain tc'
    where tc': "rewrite_token_colors cm tc = Inr tc'" by auto
  from rewrite_colors_succeeds [OF d res] cs obtain c'
    where c': "rewrite_colors cm c = Inr c'" by auto
  from theme c tc c' tc' show ?thesis
    by (simp add: apply_to_theme_JObj)
qed

text \<open>
  C1. On a theme document of the expected shape in which every value of \<open>colors\<close> and
  every \<open>foreground\<close> and \<open>background\<close> of a \<open>settings\<close> object starts with \<open>#\<close> or is a
  binding that resolves, the pass succeeds, whether a rule has \<open>settings\<close> or not and
  whether a \<open>settings\<close> object has one of the two fields, both or none. And whenever the
  pass succeeds, the \<open>colors\<close> object of the result has the keys of the \<open>colors\<close> object
  of the document, in the same order, and each value is the value of the document
  rewritten: left as it is when it starts with \<open>#\<close>, and otherwise replaced with what
  \<open>get_color_for_binding\<close> returns for it. The \<open>tokenColors\<close> list of the result has,
  position by position, the rules of the document, and in every rule with a \<open>settings\<close>
  object the fields \<open>foreground\<close> and \<open>background\<close> of that object, where present, are
  rewritten in the same way, each from its own value, and a field that is absent stays
  absent.
\<close>

theorem apply_to_theme_rewrites:
  "(resolvable_theme cm theme \<longrightarrow> (\<exists>result. apply_to_theme cm theme = Inr result)) \<and>
   (apply_to_theme cm theme = Inr theme' \<longrightarrow>
      (\<forall>cs. py_getitem theme ''colors'' = Inr (JObj cs) \<and> distinct (map fst cs) \<longrightarrow>
         (\<exists>cs'. py_getitem theme' ''colors'' = Inr (JObj cs') \<and>
            list_all2 (\<lambda>kv kv'. fst kv' = fst kv \<and> rewritten cm (snd kv) (snd kv')) cs cs')) \<and>
      (\<forall>rules. py_getitem theme ''tokenColors'' = Inr (JArr rules) \<longrightarrow>
         (\<exists>rules'. py_getitem theme' ''tokenColors'' = Inr (JArr rules') \<and>
            list_all2 (rule_rewritten cm) rules rules')))"
proof (intro conjI impI)
  assume "resolvable_theme cm theme"
  then show "\<exists>result. apply_to_theme cm theme = Inr result"
    by (rule apply_to_theme_succeeds)
next
  assume ok: "apply_to_theme cm theme = Inr theme'"
  from apply_to_theme_InrD [OF ok] obtain fs c c' tc tc' where
    theme: "theme = JObj fs"
    and c: "map_of fs ''colors'' = Some c" "rewrite_colors cm c = Inr c'"
    and tc: "map_of fs ''tokenColors'' = Some tc" "rewrite_token_colors cm tc = Inr tc'"
    and theme': "theme' = JObj (AList.update ''tokenColors'' tc' (AList.update ''colors'' c' fs))"
    by blast
  have get_c: "py_getitem theme' ''colors'' = Inr c'"
    and get_tc: "py_getitem theme' ''tokenColors'' = Inr tc'"
    using theme' by (simp_all add: update_conv')
  show "\<forall>cs. py_getitem theme ''colors'' = Inr (JObj cs) \<and> distinct (map fst cs) \<longrightarrow>
      (\<exists>cs'. py_getitem theme' ''colors'' = Inr (JObj cs') \<and>
         list_all2 (\<lambda>kv kv'. fst kv' = fst kv \<and> rewritten cm (snd kv) (snd kv')) cs cs')"
  proof (intro allI impI)
    fix cs
    assume "py_getitem theme ''colors'' = Inr (JObj cs) \<and> distinct (map fst cs)"
    with theme c have "distinct (map fst cs)" "rewrite_colors cm (JObj cs) = Inr c'" by simp_all
    from rewrite_colors_entries [OF this] get_c
    show "\<exists>cs'. py_getitem theme' ''colors'' = Inr (JObj cs') \<and>
        list_all2 (\<lambda>kv kv'. fst kv' = fst kv \<and> rewritten cm (snd kv) (snd kv')) cs cs'"
      by auto
  qed
  show "\<forall>rules. py_getitem theme ''tokenColors'' = Inr (JArr rules) \<longrightarrow>
      (\<exists>rules'. py_getitem theme' ''tokenColors'' = Inr (JArr rules') \<and>
         list_all2 (rule_rewritten cm) rules rules')"
  proof (intro allI impI)
    fix rules
    assume "py_getitem theme ''tokenColors'' = Inr (JArr rules)"
    with theme tc obtain rules' where "tc' = JArr rules'" "rules_loop cm rules = Inr rules'"
      by (auto split: sum.splits)
    with get_tc rules_loop_rewritten
    show "\<exists>rules'. py_getitem theme' ''tokenColors'' = Inr (JArr rules') \<and>
        list_all2 (rule_rewritten cm) rules rules'"
      by auto
  qed
qed

theorem apply_to_theme_rewrites_witness:
  "resolvable_theme
     (init [(''blues'', [(''sky'', ''#87ceeb'')])] [(''ui'', [(''border'', ''sky'')])])
     (JObj [(''colors'', JObj [(''panel.border'', JStr ''ui.border''),
                               (''editor.background'', JStr ''#ffffff'')]),
            (''tokenColors'',
               JArr [JObj [(''settings'', JObj [(''foreground'', JStr ''ui.border'')])],
                     JObj [(''scope'', JStr ''string'')]])]
       :: unit json) \<and>
   (\<exists>result. apply_to_theme
     (init [(''blues'', [(''sky'', ''#87ceeb'')])] [(''ui'', [(''border'', ''sky'')])])
     (JObj [(''colors'', JObj [(''panel.border'', JStr ''ui.border''),
                               (''editor.background'', JStr ''#ffffff'')]),
            (''tokenColors'',
               JArr [JObj [(''settings'', JObj [(''foreground'', JStr ''ui.border'')])],
                     JObj [(''scope'', JStr ''string'')]])]
       :: unit json) = Inr result) \<and>
   apply_to_theme
     (init [(''blues'', [(''sky'', ''#87ceeb'')])] [(''ui'', [(''border'', ''sky'')])])
     (JObj [(''colors'', JObj [(''panel.border'', JStr ''ui.border''),
                               (''editor.background'', JStr ''#ffffff'')]),
            (''tokenColors'',
               JArr [JObj [(''settings'', JObj [(''foreground'', JStr ''ui.border'')])],
                     JObj [(''scope'', JStr ''string'')]])]
       :: unit json)
   = Inr (JObj [(''colors'', JObj [(''panel.border'', JStr ''#87ceeb''),
                               (''editor.background'', JStr ''#ffffff'')]),
            (''tokenColors'',
               JArr [JObj [(''settings'', JObj [(''foreground'', JStr ''#87ceeb'')])],
                     JObj [(''scope'', JStr ''string'')]])]) \<and>
   list_all2 (\<lambda>kv kv'. fst kv' = fst kv \<and>
       rewritten (init [(''blues'', [(''sky'', ''#87ceeb'')])] [(''ui'', [(''border'', ''sky'')])])
         (snd kv) (snd kv'))
     [(''panel.border'', JStr ''ui.border''), (''editor.background'', JStr ''#ffffff'')]
     [(''panel.border'', JStr ''#87ceeb'' :: unit json), (''editor.background'', JStr ''#ffffff'')] \<and>
   list_all2
     (rule_rewritten (init [(''blues'', [(''sky'', ''#87ceeb'')])] [(''ui'', [(''border'', ''sky'')])]))
     [JObj [(''settings'', JObj [(''foreground'', JStr ''ui.border'')])],
      JObj [(''scope'', JStr ''string'')]]
     [JObj [(''settings'', JObj [(''foreground'', JStr ''#87ceeb'' :: unit json)])],
      JObj [(''scope'', JStr ''string'')]]"
proof -
  let ?cm = "init [(''blues'', [(''sky'', ''#87ceeb'')])] [(''ui'', [(''border'', ''sky'')])]"
  let ?cs = "[(''panel.border'', JStr ''ui.border''),
              (''editor.background'', JStr ''#ffffff'' :: unit json)]"
  let ?rules = "[JObj [(''settings'', JObj [(''foreground'', JStr ''ui.border'' :: unit json)])],
                 JObj [(''scope'', JStr ''string'')]]"
  let ?theme = "JObj [(''colors'', JObj ?cs), (''tokenColors'', JArr ?rules)]"
  let ?theme' = "JObj [(''colors'', JObj [(''panel.border'', JStr ''#87ceeb''),
                               (''editor.background'', JStr ''#ffffff'')]),
            (''tokenColors'',
               JArr [JObj [(''settings'', JObj [(''foreground'', JStr ''#87ceeb'')])],
                     JObj [(''scope'', JStr ''string'')]])] :: unit json"
  have res: "get_color_for_binding ?cm ''ui.border'' = Inr ''#87ceeb''"
    by (simp add: get_color_for_binding_def get_color_name_for_binding_def
        get_color_for_name_def decompose_name_def init_def)
  have shape: "resolvable_theme ?cm ?theme"
    by (simp add: resolvable_theme_def resolvable_rule_def resolvable_field_def
        resolvable_def res)
  have run: "apply_to_theme ?cm ?theme = Inr ?theme'"
    by (simp add: apply_to_theme_JObj process_rule_JObj rewrite_field_JObj res)
  note inst = apply_to_theme_rewrites [of ?cm ?theme ?theme']
  have "\<exists>result. apply_to_theme ?cm ?theme = Inr result"
    using inst [THEN conjunct1] shape by (rule mp)
  moreover have "list_all2 (\<lambda>kv kv'. fst kv' = fst kv \<and> rewritten ?cm (snd kv) (snd kv')) ?cs
      [(''panel.border'', JStr ''#87ceeb''), (''editor.background'', JStr ''#ffffff'')]"
    using inst [THEN conjunct2, THEN mp, OF run, THEN conjunct1, rule_format, of ?cs]
    by simp
  moreover have "list_all2 (rule_rewritten ?cm) ?rules
      [JObj [(''settings'', JObj [(''foreground'', JStr ''#87ceeb'')])],
       JObj [(''scope'', JStr ''string'')]]"
    using inst [THEN conjunct2, THEN mp, OF run, THEN conjunct2, rule_format, of ?rules]
    by simp
  ultimately show ?thesis
    using shape run by (intro conjI)
qed

subsection \<open>Tables that hold literals only\<close>

lemma add_group_values:
  assumes "\<forall>n v. ac n = Some v \<longrightarrow> P v" and "\<forall>item \<in> set gr. P (snd item)"
  shows "\<forall>n v. add_group ac gr n = Some v \<longrightarrow> P v"
  using assms
proof (induction gr arbitrary: ac)
  case Nil
  then show ?case by simp
next
  case (Cons item items)
  obtain m w where item: "item = (m, w)" by (cases item)
  let ?ac = "if ac m = None then ac(m \<mapsto> w) else ac"
  from Cons.prems item have "\<forall>n v. ?ac n = Some v \<longrightarrow> P v" by auto
  moreover from Cons.prems have "\<forall>item \<in> set items. P (snd item)" by simp
  ultimately have "\<forall>n v. add_group ?ac items n = Some v \<longrightarrow> P v" by (rule Cons.IH)
  with item show ?case by simp
qed

lemma add_groups_values:
  assumes "\<forall>n v. ac n = Some v \<longrightarrow> P v"
    and "\<forall>g \<in> set groups. \<forall>item \<in> set (snd g). P (snd item)"
  shows "\<forall>n v. add_groups ac groups n = Some v \<longrightarrow> P v"
  using assms
proof (induction groups arbitrary: ac)
  case Nil
  then show ?case by simp
next
  case (Cons g groups)
  obtain key gr where g: "g = (key, gr)" by (cases g)
  from Cons.prems g have "\<forall>n v. add_group ac gr n = Some v \<longrightarrow> P v"
    by (intro add_group_values) auto
  moreover from Cons.prems have "\<forall>g \<in> set groups. \<forall>item \<in> set (snd g). P (snd item)" by simp
  ultimately have "\<forall>n v. add_groups (add_group ac gr) groups n = Some v \<longrightarrow> P v"
    by (rule Cons.IH)
  with g show ?case by simp
qed

lemma literal_table_all_colors:
  assumes "literal_table colors" and "all_colors (init colors bnds) name = Some v"
  shows "startswith_hash v"
proof -
  from assms(1) have "\<forall>g \<in> set colors. \<forall>item \<in> set (snd g). startswith_hash (snd item)"
    by (simp add: literal_table_def list_all_iff)
  then have "\<forall>n v. add_groups Map.empty colors n = Some v \<longrightarrow> startswith_hash v"
    by (intro add_groups_values) simp_all
  with assms(2) show ?thesis by (simp add: init_def)
qed

lemma literal_table_group:
  assumes "literal_table colors" and "map_of colors qual = Some gr" and "map_of gr name = Some v"
  shows "startswith_hash v"
proof -
  from assms(2) have "(qual, gr) \<in> set colors" by (rule map_of_SomeD)
  moreover from assms(3) have "(name, v) \<in> set gr" by (rule map_of_SomeD)
  ultimately show ?thesis
    using assms(1) by (fastforce simp add: literal_table_def list_all_iff)
qed

lemma get_color_for_name_literal:
  assumes "literal_table colors" and "get_color_for_name (init colors bnds) ref = Inr v"
  shows "startswith_hash v"
proof (cases "decompose_name ref")
  case (Inl e)
  with assms(2) show ?thesis by (simp add: get_color_for_name_def)
next
  case (Inr d)
  obtain q name where d: "d = (q, name)" by (cases d)
  show ?thesis
  proof (cases q)
    case None
    with assms(2) Inr d have "all_colors (init colors bnds) name = Some v"
      by (simp add: get_color_for_name_def split: option.splits)
    with assms(1) show ?thesis by (rule literal_table_all_colors)
  next
    case (Some qual)
    with assms(2) Inr d obtain gr where "map_of colors qual = Some gr" "map_of gr name = Some v"
      by (auto simp add: get_color_for_name_def init_def split: option.splits)
    with assms(1) show ?thesis by (rule literal_table_group)
  qed
qed

lemma get_color_for_binding_literal:
  assumes "literal_table colors" and "get_color_for_binding (init colors bnds) ref = Inr v"
  shows "startswith_hash v"
proof -
  from assms(2) obtain color where "get_color_for_name (init colors bnds) color = Inr v"
    by (auto simp add: get_color_for_binding_def split: sum.splits)
  with assms(1) show ?thesis by (rule get_color_for_name_literal)
qed

lemma resolve_value_None: "resolve_value cm v = Inr None \<Longrightarrow> is_literal v"
  by (cases v) (auto split: if_splits sum.splits)

lemma resolve_value_Some:
  assumes "literal_table colors" and "resolve_value (init colors bnds) v = Inr (Some v')"
  shows "is_literal v'"
proof -
  from assms(2) obtain s c where "get_color_for_binding (init colors bnds) s = Inr c" "v' = JStr c"
    by (cases v) (auto split: if_splits sum.splits)
  with get_color_for_binding_literal [OF assms(1)] show ?thesis by simp
qed

lemma rewritten_literal:
  assumes "literal_table colors" and "rewritten (init colors bnds) v v'"
  shows "is_literal v'"
proof -
  from assms(2) obtain s where v: "v = JStr s"
    by (cases v) (simp_all add: rewritten_def)
  show ?thesis
  proof (cases "startswith_hash s")
    case True
    with assms(2) v show ?thesis by (simp add: rewritten_def)
  next
    case False
    with assms(2) v obtain c where "get_color_for_binding (init colors bnds) s = Inr c" "v' = JStr c"
      by (auto simp add: rewritten_def split: sum.splits)
    with get_color_for_binding_literal [OF assms(1)] show ?thesis by simp
  qed
qed

subsection \<open>No reference survives a pass\<close>

lemma colors_dict_loop_literal_result:
  assumes "literal_table colors"
    and "colors_dict_loop (init colors bnds) ks cs = Inr cs'"
  shows "map fst cs' = map fst cs \<and>
         (\<forall>k. literal_field k cs \<and> map_of cs k \<noteq> None \<longrightarrow>
              literal_field k cs' \<and> map_of cs' k \<noteq> None) \<and>
         (\<forall>k \<in> set ks. literal_field k cs' \<and> map_of cs' k \<noteq> None)"
  using assms(2)
proof (induction ks arbitrary: cs)
  case Nil
  then show ?case by simp
next
  case (Cons k ks)
  from Cons.prems obtain v where v: "map_of cs k = Some v"
    by (cases "map_of cs k") simp_all
  with Cons.prems obtain r where r: "resolve_value (init colors bnds) v = Inr r"
    by (cases "resolve_value (init colors bnds) v") simp_all
  show ?case
  proof (cases r)
    case None
    with Cons.prems v r have loop: "colors_dict_loop (init colors bnds) ks cs = Inr cs'" by simp
    from r None have "is_literal v" by (simp add: resolve_value_None)
    with v have "literal_field k cs \<and> map_of cs k \<noteq> None" by (simp add: literal_field_def)
    with Cons.IH [OF loop] show ?thesis by simp
  next
    case (Some v')
    let ?cs = "AList.update k v' cs"
    from Cons.prems v r Some
    have loop: "colors_dict_loop (init colors bnds) ks ?cs = Inr cs'" by simp
    from r Some have "is_literal v'" using assms(1) by (simp add: resolve_value_Some)
    then have here: "literal_field k ?cs \<and> map_of ?cs k \<noteq> None"
      by (simp add: literal_field_def update_conv')
    from v have "k \<in> set (map fst cs)"
      by (metis map_of_eq_None_iff option.distinct(1) set_map)
    then have keys: "map fst ?cs = map fst cs" by (simp add: update_keys)
    have keep: "\<forall>j. literal_field j cs \<and> map_of cs j \<noteq> None \<longrightarrow>
        literal_field j ?cs \<and> map_of ?cs j \<noteq> None"
      using here by (auto simp add: literal_field_def update_conv')
    from Cons.IH [OF loop] here keys keep show ?thesis by auto
  qed
qed

lemma rewrite_colors_JObjD:
  "rewrite_colors cm c = Inr (JObj cs') \<Longrightarrow>
   \<exists>cs. c = JObj cs \<and> colors_dict_loop cm (map fst cs) cs = Inr cs'"
  by (cases c) (auto split: sum.splits if_splits)

lemma rewrite_colors_literal_result:
  assumes "literal_table colors"
    and "rewrite_colors (init colors bnds) c = Inr (JObj cs')"
    and "map_of cs' k = Some v"
  shows "is_literal v"
proof -
  from rewrite_colors_JObjD [OF assms(2)] obtain cs where
    loop: "colors_dict_loop (init colors bnds) (map fst cs) cs = Inr cs'" by blast
  from colors_dict_loop_literal_result [OF assms(1) loop]
  have keys: "map fst cs' = map fst cs"
    and lit: "\<forall>k \<in> set (map fst cs). literal_field k cs' \<and> map_of cs' k \<noteq> None"
    by simp_all
  from assms(3) have "k \<in> set (map fst cs')"
    by (metis map_of_eq_None_iff option.distinct(1) set_map)
  with keys lit have "literal_field k cs'" by auto
  with assms(3) show ?thesis by (simp add: literal_field_def)
qed


lemma rewrite_field_JArr:
  "rewrite_field cm key (JArr xs) = (if JStr key \<in> set xs then Inl TypeError else Inr (JArr xs))"
  by (simp add: rewrite_field_def)

lemma rewrite_field_JStr:
  "rewrite_field cm key (JStr s) = (if sublist key s then Inl TypeError else Inr (JStr s))"
  by (simp add: rewrite_field_def)

lemma rewrite_field_not_object:
  assumes "rewrite_field cm key s = Inr s'" and "\<forall>st. s \<noteq> JObj st"
  shows "s' = s"
  using assms
  by (cases s) (auto simp add: rewrite_field_def split: bool.splits)

lemma rewrite_field_literal_result:
  assumes "literal_table colors"
    and "rewrite_field (init colors bnds) key s = Inr (JObj st')"
  shows "\<exists>st. s = JObj st \<and> literal_field key st' \<and>
           (\<forall>k. k \<noteq> key \<longrightarrow> map_of st' k = map_of st k)"
proof -
  from assms(2) obtain st where s: "s = JObj st"
    using rewrite_field_not_object by blast
  from rewrite_field_result [OF assms(2) [unfolded s]]
  have fr: "field_rewritten (init colors bnds) key st st'"
    and other: "\<forall>k. k \<noteq> key \<longrightarrow> map_of st' k = map_of st k"
    by simp_all
  from fr have "literal_field key st'"
    using rewritten_literal [OF assms(1)]
    by (auto simp add: field_rewritten_def literal_field_def split: option.splits)
  with s other show ?thesis by simp
qed

lemma process_rule_JArr:
  "process_rule cm (JArr xs) =
     (if JStr ''settings'' \<in> set xs then Inl TypeError else Inr (JArr xs))"
  by (simp add: process_rule_def)

lemma process_rule_JStr:
  "process_rule cm (JStr s) = (if sublist ''settings'' s then Inl TypeError else Inr (JStr s))"
  by (simp add: process_rule_def)

lemma process_rule_not_object:
  assumes "process_rule cm r = Inr r'" and "\<forall>rf. r \<noteq> JObj rf"
  shows "r' = r"
  using assms
  by (cases r) (auto simp add: process_rule_def split: bool.splits)

lemma process_rule_literal_result:
  assumes "literal_table colors"
    and "process_rule (init colors bnds) r = Inr (JObj rf')"
    and "map_of rf' ''settings'' = Some (JObj st')"
  shows "literal_field ''foreground'' st' \<and> literal_field ''background'' st'"
proof -
  from assms(2) obtain rf where r: "r = JObj rf"
    using process_rule_not_object by blast
  show ?thesis
  proof (cases "map_of rf ''settings''")
    case None
    with assms(2,3) r show ?thesis by (simp add: process_rule_JObj)
  next
    case (Some s)
    with assms(2) r obtain s1 s2
      where s1: "rewrite_field (init colors bnds) ''foreground'' s = Inr s1"
        and s2: "rewrite_field (init colors bnds) ''background'' s1 = Inr s2"
        and rf': "rf' = AList.update ''settings'' s2 rf"
      by (auto simp add: process_rule_JObj split: sum.splits)
    from rf' assms(3) have s2_obj: "s2 = JObj st'" by (simp add: update_conv')
    from rewrite_field_literal_result [OF assms(1) s2 [unfolded s2_obj]] obtain st1
      where st1: "s1 = JObj st1" "literal_field ''background'' st'"
        "map_of st' ''foreground'' = map_of st1 ''foreground''"
      by auto
    from rewrite_field_literal_result [OF assms(1) s1 [unfolded st1(1)]]
    have "literal_field ''foreground'' st1" by blast
    with st1(3) have "literal_field ''foreground'' st'" by (simp add: literal_field_def)
    with st1(2) show ?thesis by simp
  qed
qed

lemma rules_loop_member:
  "rules_loop cm rules = Inr rules' \<Longrightarrow> r' \<in> set rules' \<Longrightarrow>
   \<exists>r \<in> set rules. process_rule cm r = Inr r'"
  by (induction rules arbitrary: rules') (auto split: sum.splits)

lemma rewrite_token_colors_JArrD:
  "rewrite_token_colors cm tc = Inr (JArr rules') \<Longrightarrow>
   \<exists>rules. tc = JArr rules \<and> rules_loop cm rules = Inr rules'"
  by (cases tc) (auto split: sum.splits)

text \<open>
  C9. Let every color value of the groups the table is built from start with \<open>#\<close>, and
  let the pass succeed. Then every value of the \<open>colors\<close> object of the result is a
  string that starts with \<open>#\<close>, and so is every \<open>foreground\<close> and \<open>background\<close> of every
  \<open>settings\<close> object of a rule of the result.
\<close>

theorem no_reference_survives:
  assumes "literal_table colors"
    and "apply_to_theme (init colors bnds) theme = Inr theme'"
  shows "(\<forall>cs' k v. py_getitem theme' ''colors'' = Inr (JObj cs') \<and> map_of cs' k = Some v \<longrightarrow>
            is_literal v) \<and>
         (\<forall>rules' rf' st' key v.
            py_getitem theme' ''tokenColors'' = Inr (JArr rules') \<and> JObj rf' \<in> set rules' \<and>
            map_of rf' ''settings'' = Some (JObj st') \<and>
            (key = ''foreground'' \<or> key = ''background'') \<and> map_of st' key = Some v \<longrightarrow>
            is_literal v)"
proof -
  from apply_to_theme_InrD [OF assms(2)] obtain fs c c' tc tc' where
    c: "rewrite_colors (init colors bnds) c = Inr c'"
    and tc: "rewrite_token_colors (init colors bnds) tc = Inr tc'"
    and theme': "theme' = JObj (AList.update ''tokenColors'' tc' (AList.update ''colors'' c' fs))"
    by blast
  have get_c: "py_getitem theme' ''colors'' = Inr c'"
    and get_tc: "py_getitem theme' ''tokenColors'' = Inr tc'"
    using theme' by (simp_all add: update_conv')
  show ?thesis
  proof (intro conjI allI impI)
    fix cs' k v
    assume "py_getitem theme' ''colors'' = Inr (JObj cs') \<and> map_of cs' k = Some v"
    with get_c c have "rewrite_colors (init colors bnds) c = Inr (JObj cs')" "map_of cs' k = Some v"
      by simp_all
    with assms(1) show "is_literal v" by (rule rewrite_colors_literal_result)
  next
    fix rules' rf' st' key v
    assume a: "py_getitem theme' ''tokenColors'' = Inr (JArr rules') \<and> JObj rf' \<in> set rules' \<and>
      map_of rf' ''settings'' = Some (JObj st') \<and>
      (key = ''foreground'' \<or> key = ''background'') \<and> map_of st' key = Some v"
    with get_tc tc have "rewrite_token_colors (init colors bnds) tc = Inr (JArr rules')" by simp
    from rewrite_token_colors_JArrD [OF this] obtain rules
      where "rules_loop (init colors bnds) rules = Inr rules'" by blast
    with a obtain r where "process_rule (init colors bnds) r = Inr (JObj rf')"
      using rules_loop_member by blast
    from process_rule_literal_result [OF assms(1) this] a
    have "literal_field key st'" by blast
    with a show "is_literal v" by (simp add: literal_field_def)
  qed
qed

theorem no_reference_survives_witness:
  "literal_table [(''blues'', [(''sky'', ''#87ceeb'')])] \<and>
   apply_to_theme
     (init [(''blues'', [(''sky'', ''#87ceeb'')])] [(''ui'', [(''border'', ''sky'')])])
     (JObj [(''colors'', JObj [(''panel.border'', JStr ''ui.border'')]),
            (''tokenColors'',
               JArr [JObj [(''scope'', JStr ''comment''),
                           (''settings'', JObj [(''background'', JStr ''ui.border'')])]])]
       :: unit json)
   = Inr (JObj [(''colors'', JObj [(''panel.border'', JStr ''#87ceeb'')]),
            (''tokenColors'',
               JArr [JObj [(''scope'', JStr ''comment''),
                           (''settings'', JObj [(''background'', JStr ''#87ceeb'')])]])]) \<and>
   is_literal (JStr ''#87ceeb'' :: unit json)"
proof -
  let ?colors = "[(''blues'', [(''sky'', ''#87ceeb'')])]"
  let ?bnds = "[(''ui'', [(''border'', ''sky'')])]"
  let ?theme = "JObj [(''colors'', JObj [(''panel.border'', JStr ''ui.border'')]),
            (''tokenColors'',
               JArr [JObj [(''scope'', JStr ''comment''),
                           (''settings'', JObj [(''background'', JStr ''ui.border'')])]])]
       :: unit json"
  have table: "literal_table ?colors" by (simp add: literal_table_def)
  have res: "get_color_for_binding (init ?colors ?bnds) ''ui.border'' = Inr ''#87ceeb''"
    by (simp add: get_color_for_binding_def get_color_name_for_binding_def
        get_color_for_name_def decompose_name_def init_def)
  have run: "apply_to_theme (init ?colors ?bnds) ?theme =
    Inr (JObj [(''colors'', JObj [(''panel.border'', JStr ''#87ceeb'')]),
            (''tokenColors'',
               JArr [JObj [(''scope'', JStr ''comment''),
                           (''settings'', JObj [(''background'', JStr ''#87ceeb'')])]])])"
    by (simp add: apply_to_theme_JObj process_rule_JObj rewrite_field_JObj res)
  show ?thesis
    using table run
      no_reference_survives [OF table run, THEN conjunct1, rule_format,
        of "[(''panel.border'', JStr ''#87ceeb'')]" "''panel.border''" "JStr ''#87ceeb''"]
      no_reference_survives [OF table run, THEN conjunct2, rule_format,
        of "[JObj [(''scope'', JStr ''comment''),
                   (''settings'', JObj [(''background'', JStr ''#87ceeb'')])]]"
           "[(''scope'', JStr ''comment''),
             (''settings'', JObj [(''background'', JStr ''#87ceeb'')])]"
           "[(''background'', JStr ''#87ceeb'')]" "''background''" "JStr ''#87ceeb''"]
    by simp
qed

subsection \<open>A second pass changes nothing\<close>

lemma colors_dict_loop_again:
  assumes "literal_table colors"
    and "colors_dict_loop (init colors bnds) (map fst cs) cs = Inr cs'"
  shows "colors_dict_loop (init colors bnds) (map fst cs') cs' = Inr cs'"
proof -
  from colors_dict_loop_literal_result [OF assms]
  have keys: "map fst cs' = map fst cs"
    and lit: "\<forall>k \<in> set (map fst cs). literal_field k cs' \<and> map_of cs' k \<noteq> None"
    by simp_all
  from lit have "\<forall>k \<in> set (map fst cs'). \<exists>v. map_of cs' k = Some v \<and> is_literal v"
    unfolding keys by (auto simp add: literal_field_def)
  then show ?thesis by (rule colors_dict_loop_literal)
qed

lemma list_position_less: "list_position xs i = Inr k \<Longrightarrow> k < length xs"
  by (auto simp add: list_position_def Let_def split: if_splits)

lemma list_index_InrD:
  "list_index xs x = Inr k \<Longrightarrow> k < length xs \<and> (\<forall>s. x \<noteq> JStr s)"
  by (cases x) (auto dest: list_position_less)

lemma resolve_value_InrD: "resolve_value cm x = Inr r \<Longrightarrow> \<exists>s. x = JStr s"
  by (cases x) simp_all

lemma resolve_value_SomeD: "resolve_value cm x = Inr (Some v) \<Longrightarrow> \<exists>c. v = JStr c"
  by (cases x) (auto split: if_splits sum.splits)

lemma colors_list_loop_string:
  assumes "j \<in> set js" and "j < length xs" and "xs ! j = JStr s"
  shows "\<exists>e. colors_list_loop cm js xs = Inl e"
  using assms
proof (induction js arbitrary: xs s)
  case Nil
  then show ?case by simp
next
  case (Cons j0 js)
  show ?case
  proof (cases "list_index xs (xs ! j0)")
    case (Inl e)
    then show ?thesis by simp
  next
    case (Inr i)
    then have not_str: "\<forall>t. xs ! j0 \<noteq> JStr t" and i: "i < length xs"
      by (simp_all add: list_index_InrD)
    with Cons.prems have j: "j \<in> set js" by auto
    show ?thesis
    proof (cases "resolve_value cm (xs ! i)")
      case (Inl e)
      with Inr show ?thesis by simp
    next
      case (Inr r)
      show ?thesis
      proof (cases r)
        case None
        from Cons.IH [OF j Cons.prems(2,3)] \<open>list_index xs (xs ! j0) = Inr i\<close> Inr None
        show ?thesis by simp
      next
        case (Some v)
        with Inr obtain c where v: "v = JStr c" using resolve_value_SomeD by blast
        from Cons.prems(2,3) v i
        have "j < length (xs[i := v])" "\<exists>t. xs[i := v] ! j = JStr t"
          by (simp_all add: nth_list_update)
        with Cons.IH [OF j] have "\<exists>e. colors_list_loop cm js (xs[i := v]) = Inl e" by blast
        with \<open>list_index xs (xs ! j0) = Inr i\<close> Inr Some show ?thesis by simp
      qed
    qed
  qed
qed

lemma colors_list_loop_fails:
  assumes "xs \<noteq> []"
  shows "\<exists>e. colors_list_loop cm [0..<length xs] xs = Inl e"
proof -
  from assms have upt: "[0..<length xs] = 0 # [1..<length xs]"
    by (simp add: upt_rec)
  show ?thesis
  proof (cases "list_index xs (xs ! 0)")
    case (Inl e)
    with upt show ?thesis by simp
  next
    case (Inr i)
    then have i: "i < length xs" and not_str: "\<forall>t. xs ! 0 \<noteq> JStr t"
      by (simp_all add: list_index_InrD)
    show ?thesis
    proof (cases "resolve_value cm (xs ! i)")
      case (Inl e)
      with upt Inr show ?thesis by simp
    next
      case (Inr r)
      then obtain s where s: "xs ! i = JStr s" using resolve_value_InrD by blast
      with not_str have "i \<noteq> 0" by (metis)
      with i have mem: "i \<in> set [1..<length xs]" by simp
      show ?thesis
      proof (cases r)
        case None
        from colors_list_loop_string [OF mem i s]
        obtain e where "colors_list_loop cm [1..<length xs] xs = Inl e" by blast
        with upt \<open>list_index xs (xs ! 0) = Inr i\<close> Inr None show ?thesis by simp
      next
        case (Some v)
        with Inr obtain c where v: "v = JStr c" using resolve_value_SomeD by blast
        from i v have "i < length (xs[i := v])" "xs[i := v] ! i = JStr c" by simp_all
        from colors_list_loop_string [OF mem this]
        obtain e where "colors_list_loop cm [1..<length xs] (xs[i := v]) = Inl e" by blast
        with upt \<open>list_index xs (xs ! 0) = Inr i\<close> Inr Some show ?thesis by simp
      qed
    qed
  qed
qed

lemma rewrite_colors_JArr:
  "rewrite_colors cm (JArr xs) = Inr c' \<longleftrightarrow> xs = [] \<and> c' = JArr []"
proof (cases "xs = []")
  case True
  then show ?thesis by auto
next
  case False
  from colors_list_loop_fails [OF this] obtain e
    where "colors_list_loop cm [0..<length xs] xs = Inl e" by blast
  with False show ?thesis by simp
qed

lemma rewrite_colors_again:
  assumes "literal_table colors" and "rewrite_colors (init colors bnds) c = Inr c'"
  shows "rewrite_colors (init colors bnds) c' = Inr c'"
proof (cases c)
  case (JObj cs)
  with assms(2) obtain cs' where c': "c' = JObj cs'"
    and loop: "colors_dict_loop (init colors bnds) (map fst cs) cs = Inr cs'"
    by (auto split: sum.splits)
  from colors_dict_loop_again [OF assms(1) loop] c' show ?thesis by simp
next
  case (JArr xs)
  with assms(2) have "c' = JArr []" by (simp only: rewrite_colors_JArr)
  then show ?thesis by simp
next
  case (JStr s)
  with assms(2) show ?thesis by (auto split: if_splits)
qed (use assms(2) in simp_all)

lemma rewrite_field_again:
  assumes "literal_table colors" and "rewrite_field (init colors bnds) key s = Inr s'"
  shows "rewrite_field (init colors bnds) key s' = Inr s'"
proof (cases "\<exists>st'. s' = JObj st'")
  case True
  then obtain st' where st': "s' = JObj st'" by blast
  from rewrite_field_literal_result [OF assms(1) assms(2) [unfolded st']]
  have "literal_field key st'" by blast
  with st' show ?thesis by (simp add: rewrite_field_literal)
next
  case False
  have "\<forall>st. s \<noteq> JObj st"
  proof (intro allI notI)
    fix st
    assume "s = JObj st"
    with assms(2) rewrite_field_result [of "init colors bnds" key st s'] False
    show False by blast
  qed
  with assms(2) have "s' = s" by (rule rewrite_field_not_object)
  with assms(2) show ?thesis by simp
qed

lemma rewrite_field_kept:
  assumes "literal_table colors"
    and "rewrite_field (init colors bnds) key s = Inr s1"
    and "rewrite_field (init colors bnds) key' s1 = Inr s2"
    and "key \<noteq> key'"
  shows "rewrite_field (init colors bnds) key s2 = Inr s2"
proof (cases "\<exists>st1. s1 = JObj st1")
  case True
  then obtain st1 where st1: "s1 = JObj st1" by blast
  from rewrite_field_literal_result [OF assms(1) assms(2) [unfolded st1]]
  have lit: "literal_field key st1" by blast
  from rewrite_field_result [OF assms(3) [unfolded st1]] assms(4) obtain st2
    where st2: "s2 = JObj st2" "map_of st2 key = map_of st1 key" by auto
  from lit st2(2) have "literal_field key st2" by (simp add: literal_field_def)
  with st2(1) show ?thesis by (simp add: rewrite_field_literal)
next
  case False
  then have "\<forall>st. s1 \<noteq> JObj st" by blast
  with assms(3) have "s2 = s1" by (rule rewrite_field_not_object)
  with rewrite_field_again [OF assms(1,2)] show ?thesis by simp
qed

lemma process_rule_again:
  assumes "literal_table colors" and "process_rule (init colors bnds) r = Inr r'"
  shows "process_rule (init colors bnds) r' = Inr r'"
proof (cases "\<exists>rf. r = JObj rf")
  case True
  then obtain rf where r: "r = JObj rf" by blast
  show ?thesis
  proof (cases "map_of rf ''settings''")
    case None
    with assms(2) r show ?thesis by (auto simp add: process_rule_JObj)
  next
    case (Some s)
    with assms(2) r obtain s1 s2
      where s1: "rewrite_field (init colors bnds) ''foreground'' s = Inr s1"
        and s2: "rewrite_field (init colors bnds) ''background'' s1 = Inr s2"
        and r': "r' = JObj (AList.update ''settings'' s2 rf)"
      by (auto simp add: process_rule_JObj split: sum.splits)
    have "rewrite_field (init colors bnds) ''foreground'' s2 = Inr s2"
      using assms(1) s1 s2 by (rule rewrite_field_kept) simp
    moreover have "rewrite_field (init colors bnds) ''background'' s2 = Inr s2"
      using assms(1) s2 by (rule rewrite_field_again)
    ultimately show ?thesis
      using r' by (simp add: process_rule_JObj update_conv')
  qed
next
  case False
  then have "\<forall>rf. r \<noteq> JObj rf" by blast
  with assms(2) have "r' = r" by (rule process_rule_not_object)
  with assms(2) show ?thesis by simp
qed

lemma rules_loop_again:
  assumes "literal_table colors"
  shows "rules_loop (init colors bnds) rules = Inr rules' \<Longrightarrow>
         rules_loop (init colors bnds) rules' = Inr rules'"
proof (induction rules arbitrary: rules')
  case Nil
  then show ?case by simp
next
  case (Cons r rules)
  from Cons.prems obtain r1 rest where
    r1: "process_rule (init colors bnds) r = Inr r1"
    and rest: "rules_loop (init colors bnds) rules = Inr rest"
    and rules': "rules' = r1 # rest"
    by (auto split: sum.splits)
  from process_rule_again [OF assms r1] Cons.IH [OF rest] rules'
  show ?case by simp
qed

lemma rewrite_token_colors_again:
  assumes "literal_table colors" and "rewrite_token_colors (init colors bnds) tc = Inr tc'"
  shows "rewrite_token_colors (init colors bnds) tc' = Inr tc'"
proof (cases tc)
  case (JArr rules)
  with assms(2) obtain rules' where tc': "tc' = JArr rules'"
    and loop: "rules_loop (init colors bnds) rules = Inr rules'"
    by (auto split: sum.splits)
  from rules_loop_again [OF assms(1) loop] tc' show ?thesis by simp
next
  case (JObj kvs)
  with assms(2) have "tc' = tc" by (auto split: sum.splits)
  with assms(2) show ?thesis by simp
next
  case (JStr s)
  with assms(2) have "tc' = tc" by (auto split: sum.splits)
  with assms(2) show ?thesis by simp
qed (use assms(2) in simp_all)

text \<open>
  C10. Let every color value of the groups the table is built from start with \<open>#\<close>.
  Then a pass over the result of a successful pass succeeds and returns that result
  unchanged: two passes give what one pass gives.
\<close>

theorem apply_to_theme_idempotent:
  assumes "literal_table colors"
    and "apply_to_theme (init colors bnds) theme = Inr theme'"
  shows "apply_to_theme (init colors bnds) theme' = Inr theme'"
proof -
  from apply_to_theme_InrD [OF assms(2)] obtain fs c c' tc tc' where
    c: "rewrite_colors (init colors bnds) c = Inr c'"
    and tc: "rewrite_token_colors (init colors bnds) tc = Inr tc'"
    and theme': "theme' = JObj (AList.update ''tokenColors'' tc' (AList.update ''colors'' c' fs))"
    by blast
  let ?fs = "AList.update ''tokenColors'' tc' (AList.update ''colors'' c' fs)"
  have look: "map_of ?fs ''colors'' = Some c'" "map_of ?fs ''tokenColors'' = Some tc'"
    by (simp_all add: update_conv')
  then have "AList.update ''tokenColors'' tc' (AList.update ''colors'' c' ?fs) = ?fs"
    by (simp only: update_triv)
  with look rewrite_colors_again [OF assms(1) c] rewrite_token_colors_again [OF assms(1) tc]
  show ?thesis
    unfolding theme' by (simp only: apply_to_theme_JObj option.case sum.case)
qed

theorem apply_to_theme_idempotent_witness:
  "literal_table [(''blues'', [(''sky'', ''#87ceeb''), (''navy'', ''#000080'')])] \<and>
   apply_to_theme
     (init [(''blues'', [(''sky'', ''#87ceeb''), (''navy'', ''#000080'')])]
        [(''ui'', [(''border'', ''sky''), (''text'', ''blues.navy'')])])
     (JObj [(''colors'', JObj [(''panel.border'', JStr ''ui.border'')]),
            (''tokenColors'',
               JArr [JObj [(''settings'', JObj [(''foreground'', JStr ''ui.text'')])]])]
       :: unit json)
   = Inr (JObj [(''colors'', JObj [(''panel.border'', JStr ''#87ceeb'')]),
            (''tokenColors'',
               JArr [JObj [(''settings'', JObj [(''foreground'', JStr ''#000080'')])]])]) \<and>
   apply_to_theme
     (init [(''blues'', [(''sky'', ''#87ceeb''), (''navy'', ''#000080'')])]
        [(''ui'', [(''border'', ''sky''), (''text'', ''blues.navy'')])])
     (JObj [(''colors'', JObj [(''panel.border'', JStr ''#87ceeb'')]),
            (''tokenColors'',
               JArr [JObj [(''settings'', JObj [(''foreground'', JStr ''#000080'')])]])]
       :: unit json)
   = Inr (JObj [(''colors'', JObj [(''panel.border'', JStr ''#87ceeb'')]),
            (''tokenColors'',
               JArr [JObj [(''settings'', JObj [(''foreground'', JStr ''#000080'')])]])])"
proof -
  let ?colors = "[(''blues'', [(''sky'', ''#87ceeb''), (''navy'', ''#000080'')])]"
  let ?bnds = "[(''ui'', [(''border'', ''sky''), (''text'', ''blues.navy'')])]"
  let ?theme = "JObj [(''colors'', JObj [(''panel.border'', JStr ''ui.border'')]),
            (''tokenColors'',
               JArr [JObj [(''settings'', JObj [(''foreground'', JStr ''ui.text'')])]])]
       :: unit json"
  have table: "literal_table ?colors" by (simp add: literal_table_def)
  have res: "get_color_for_binding (init ?colors ?bnds) ''ui.border'' = Inr ''#87ceeb''"
    "get_color_for_binding (init ?colors ?bnds) ''ui.text'' = Inr ''#000080''"
    by (simp_all add: get_color_for_binding_def get_color_name_for_binding_def
        get_color_for_name_def decompose_name_def init_def)
  have run: "apply_to_theme (init ?colors ?bnds) ?theme =
    Inr (JObj [(''colors'', JObj [(''panel.border'', JStr ''#87ceeb'')]),
            (''tokenColors'',
               JArr [JObj [(''settings'', JObj [(''foreground'', JStr ''#000080'')])]])])"
    by (simp add: apply_to_theme_JObj process_rule_JObj rewrite_field_JObj res)
  from table run apply_to_theme_idempotent [OF table run] show ?thesis by (intro conjI)
qed

subsection \<open>What a pass leaves alone\<close>

lemma update_only:
  "map_of al k = Some v \<Longrightarrow>
   list_all2 (\<lambda>kv kv'. fst kv' = fst kv \<and>
       (snd kv' = snd kv \<or> (fst kv = k \<and> snd kv = v \<and> snd kv' = v')))
     al (AList.update k v' al)"
proof (induction al)
  case Nil
  then show ?case by simp
next
  case (Cons p al)
  show ?case
  proof (cases "fst p = k")
    case True
    with Cons.prems have "snd p = v" by (cases p) simp
    with True show ?thesis by (simp add: list_all2_refl)
  next
    case False
    with Cons.prems have "map_of al k = Some v" by (cases p) (simp split: if_splits)
    from Cons.IH [OF this] False show ?thesis by simp
  qed
qed

lemma update_commute:
  "a \<noteq> b \<Longrightarrow> a \<in> fst ` set al \<Longrightarrow>
   AList.update a x (AList.update b y al) = AList.update b y (AList.update a x al)"
  by (induction al) auto

lemma map_of_in_keys: "map_of al k = Some v \<Longrightarrow> k \<in> fst ` set al"
  by (metis map_of_eq_None_iff option.distinct(1))

lemma frame_settings_refl: "frame_settings s s"
  by (cases s) (simp_all add: frame_settings_def list_all2_refl)

lemma frame_rule_refl: "frame_rule r r"
  by (cases r) (simp_all add: frame_rule_def list_all2_refl frame_settings_refl)

lemma frame_token_colors_refl: "frame_token_colors tc tc"
  by (cases tc) (simp_all add: frame_token_colors_def list_all2_refl frame_rule_refl)

lemma frame_colors_refl: "frame_colors c c"
  by (cases c) (simp_all add: frame_colors_def)

lemma rewrite_field_only:
  assumes "rewrite_field cm key (JObj st) = Inr s'"
  shows "\<exists>st'. s' = JObj st' \<and>
           list_all2 (\<lambda>kv kv'. fst kv' = fst kv \<and> (fst kv = key \<or> snd kv' = snd kv)) st st'"
proof (cases "map_of st key")
  case None
  with assms show ?thesis by (auto simp add: rewrite_field_JObj list_all2_refl)
next
  case (Some v)
  with assms obtain r where r: "resolve_value cm v = Inr r"
    by (cases "resolve_value cm v") (simp_all add: rewrite_field_JObj)
  show ?thesis
  proof (cases r)
    case None
    with assms Some r show ?thesis by (auto simp add: rewrite_field_JObj list_all2_refl)
  next
    case (Some v')
    with assms \<open>map_of st key = Some v\<close> r have s': "s' = JObj (AList.update key v' st)"
      by (auto simp add: rewrite_field_JObj)
    have "list_all2 (\<lambda>kv kv'. fst kv' = fst kv \<and> (fst kv = key \<or> snd kv' = snd kv))
        st (AList.update key v' st)"
      using update_only [OF \<open>map_of st key = Some v\<close>, of v']
      by (rule list_all2_mono) auto
    with s' show ?thesis by simp
  qed
qed

lemma rewrite_fields_frame:
  assumes "rewrite_field cm ''foreground'' s = Inr s1"
    and "rewrite_field cm ''background'' s1 = Inr s2"
  shows "frame_settings s s2"
proof (cases "\<exists>st. s = JObj st")
  case True
  then obtain st where s: "s = JObj st" by blast
  from rewrite_field_only [OF assms(1) [unfolded s]] obtain st1 where st1: "s1 = JObj st1"
    "list_all2 (\<lambda>kv kv'. fst kv' = fst kv \<and> (fst kv = ''foreground'' \<or> snd kv' = snd kv)) st st1"
    by blast
  from rewrite_field_only [OF assms(2) [unfolded st1(1)]] obtain st2 where st2: "s2 = JObj st2"
    "list_all2 (\<lambda>kv kv'. fst kv' = fst kv \<and> (fst kv = ''background'' \<or> snd kv' = snd kv)) st1 st2"
    by blast
  have "list_all2 (\<lambda>kv kv'. fst kv' = fst kv \<and>
      (fst kv = ''foreground'' \<or> fst kv = ''background'' \<or> snd kv' = snd kv)) st st2"
    using st1(2) st2(2) by (rule list_all2_trans [rotated]) auto
  with s st2(1) show ?thesis by (simp add: frame_settings_def)
next
  case False
  then have not_obj: "\<forall>st. s \<noteq> JObj st" by blast
  with assms(1) have "s1 = s" by (rule rewrite_field_not_object)
  moreover from this assms(2) not_obj have "s2 = s1" by (simp add: rewrite_field_not_object)
  ultimately show ?thesis by (simp add: frame_settings_refl)
qed

lemma process_rule_frame:
  assumes "process_rule cm r = Inr r'"
  shows "frame_rule r r'"
proof (cases "\<exists>rf. r = JObj rf")
  case True
  then obtain rf where r: "r = JObj rf" by blast
  show ?thesis
  proof (cases "map_of rf ''settings''")
    case None
    with assms r show ?thesis by (auto simp add: process_rule_JObj frame_rule_refl)
  next
    case (Some s)
    with assms r obtain s1 s2
      where s1: "rewrite_field cm ''foreground'' s = Inr s1"
        and s2: "rewrite_field cm ''background'' s1 = Inr s2"
        and r': "r' = JObj (AList.update ''settings'' s2 rf)"
      by (auto simp add: process_rule_JObj split: sum.splits)
    from s1 s2 have fr: "frame_settings s s2" by (rule rewrite_fields_frame)
    have "list_all2 (\<lambda>kv kv'. fst kv' = fst kv \<and>
        (if fst kv = ''settings'' then frame_settings (snd kv) (snd kv')
         else snd kv' = snd kv)) rf (AList.update ''settings'' s2 rf)"
      using update_only [OF Some, of s2]
      by (rule list_all2_mono) (use fr in \<open>auto simp add: frame_settings_refl\<close>)
    with r r' show ?thesis by (simp add: frame_rule_def)
  qed
next
  case False
  then have "\<forall>rf. r \<noteq> JObj rf" by blast
  with assms have "r' = r" by (rule process_rule_not_object)
  then show ?thesis by (simp add: frame_rule_refl)
qed

lemma rewrite_token_colors_frame:
  assumes "rewrite_token_colors cm tc = Inr tc'"
  shows "frame_token_colors tc tc'"
proof (cases tc)
  case (JArr rules)
  with assms obtain rules' where tc': "tc' = JArr rules'"
    and loop: "rules_loop cm rules = Inr rules'"
    by (auto split: sum.splits)
  have "list_all2 frame_rule rules rules'"
    using rules_loop_each [OF loop] by (rule list_all2_mono) (rule process_rule_frame)
  with JArr tc' show ?thesis by (simp add: frame_token_colors_def)
next
  case (JObj kvs)
  with assms have "tc' = tc" by (auto split: sum.splits)
  then show ?thesis by (simp add: frame_token_colors_refl)
next
  case (JStr s)
  with assms have "tc' = tc" by (auto split: sum.splits)
  then show ?thesis by (simp add: frame_token_colors_refl)
qed (use assms in simp_all)

lemma colors_dict_loop_keys:
  "colors_dict_loop cm ks cs = Inr cs' \<Longrightarrow> map fst cs' = map fst cs"
proof (induction ks arbitrary: cs)
  case Nil
  then show ?case by simp
next
  case (Cons k ks)
  from Cons.prems obtain v where v: "map_of cs k = Some v"
    by (cases "map_of cs k") simp_all
  with Cons.prems obtain r where r: "resolve_value cm v = Inr r"
    by (cases "resolve_value cm v") simp_all
  show ?case
  proof (cases r)
    case None
    with Cons.prems v r Cons.IH show ?thesis by simp
  next
    case (Some v')
    with Cons.prems v r have "colors_dict_loop cm ks (AList.update k v' cs) = Inr cs'" by simp
    then have "map fst cs' = map fst (AList.update k v' cs)" by (rule Cons.IH)
    with map_of_in_keys [OF v] show ?thesis by (simp add: update_keys)
  qed
qed

lemma rewrite_colors_frame:
  assumes "rewrite_colors cm c = Inr c'"
  shows "frame_colors c c'"
proof (cases c)
  case (JObj cs)
  with assms obtain cs' where "c' = JObj cs'" "colors_dict_loop cm (map fst cs) cs = Inr cs'"
    by (auto split: sum.splits)
  with JObj colors_dict_loop_keys show ?thesis by (simp add: frame_colors_def)
next
  case (JArr xs)
  with assms have "xs = []" "c' = JArr []" by (simp_all only: rewrite_colors_JArr)
  with JArr show ?thesis by (simp add: frame_colors_def)
next
  case (JStr s)
  with assms have "c' = c" by (auto split: if_splits)
  then show ?thesis by (simp add: frame_colors_refl)
qed (use assms in simp_all)

lemma apply_to_theme_frame:
  assumes "apply_to_theme cm theme = Inr theme'"
  shows "frame_theme theme theme'"
proof -
  from apply_to_theme_InrD [OF assms] obtain fs c c' tc tc' where
    theme: "theme = JObj fs"
    and c: "map_of fs ''colors'' = Some c" "rewrite_colors cm c = Inr c'"
    and tc: "map_of fs ''tokenColors'' = Some tc" "rewrite_token_colors cm tc = Inr tc'"
    and theme': "theme' = JObj (AList.update ''tokenColors'' tc' (AList.update ''colors'' c' fs))"
    by blast
  let ?fs1 = "AList.update ''colors'' c' fs"
  from tc(1) have tc1: "map_of ?fs1 ''tokenColors'' = Some tc" by (simp add: update_conv')
  note fc = rewrite_colors_frame [OF c(2)]
  note ft = rewrite_token_colors_frame [OF tc(2)]
  have "list_all2 (\<lambda>kv kv'. fst kv' = fst kv \<and>
      (if fst kv = ''colors'' then frame_colors (snd kv) (snd kv')
       else if fst kv = ''tokenColors'' then frame_token_colors (snd kv) (snd kv')
       else snd kv' = snd kv)) fs (AList.update ''tokenColors'' tc' ?fs1)"
    using update_only [OF c(1), of c'] update_only [OF tc1, of tc']
    by (rule list_all2_trans [rotated])
      (use fc ft in \<open>auto simp add: frame_colors_refl frame_token_colors_refl\<close>)
  with theme theme' show ?thesis by (simp add: frame_theme_def)
qed

lemma rewrite_field_other_field:
  assumes "k \<noteq> key"
  shows "rewrite_field cm key (JObj (AList.update k w st)) =
     (case rewrite_field cm key (JObj st) of Inl e \<Rightarrow> Inl e | Inr s' \<Rightarrow> py_setitem s' k w)"
proof (cases "map_of st key")
  case None
  with assms show ?thesis by (simp add: rewrite_field_JObj update_conv')
next
  case (Some v)
  from map_of_in_keys [OF Some] assms
  have "\<And>v'. AList.update key v' (AList.update k w st) = AList.update k w (AList.update key v' st)"
    by (simp add: update_commute)
  with Some assms show ?thesis
    by (simp add: rewrite_field_JObj update_conv' split: sum.splits option.splits)
qed

lemma process_rule_other_field:
  assumes "k \<noteq> ''settings''"
  shows "process_rule cm (JObj (AList.update k w rf)) =
     (case process_rule cm (JObj rf) of Inl e \<Rightarrow> Inl e | Inr r' \<Rightarrow> py_setitem r' k w)"
proof (cases "map_of rf ''settings''")
  case None
  with assms show ?thesis by (simp add: process_rule_JObj update_conv')
next
  case (Some s)
  from map_of_in_keys [OF Some] assms
  have "\<And>s2. AList.update ''settings'' s2 (AList.update k w rf) =
      AList.update k w (AList.update ''settings'' s2 rf)"
    by (simp add: update_commute)
  with Some assms show ?thesis
    by (simp add: process_rule_JObj update_conv' split: sum.splits)
qed

lemma apply_to_theme_other_field:
  assumes "k \<noteq> ''colors''" and "k \<noteq> ''tokenColors''"
  shows "apply_to_theme cm (JObj (AList.update k w fs)) =
     (case apply_to_theme cm (JObj fs) of Inl e \<Rightarrow> Inl e | Inr t \<Rightarrow> py_setitem t k w)"
proof (cases "map_of fs ''colors''")
  case None
  with assms show ?thesis by (simp add: apply_to_theme_JObj update_conv')
next
  case c: (Some c)
  show ?thesis
  proof (cases "map_of fs ''tokenColors''")
    case None
    with c assms show ?thesis
      by (simp add: apply_to_theme_JObj update_conv' split: sum.splits)
  next
    case (Some tc)
    have "AList.update ''tokenColors'' tc' (AList.update ''colors'' c' (AList.update k w fs)) =
        AList.update k w (AList.update ''tokenColors'' tc' (AList.update ''colors'' c' fs))"
      for c' tc'
    proof -
      from map_of_in_keys [OF c] assms(1)
      have "AList.update ''colors'' c' (AList.update k w fs) =
          AList.update k w (AList.update ''colors'' c' fs)"
        by (simp add: update_commute)
      moreover from map_of_in_keys [OF Some]
      have "''tokenColors'' \<in> fst ` set (AList.update ''colors'' c' fs)"
        by (simp add: dom_update)
      ultimately show ?thesis
        using assms(2) by (simp add: update_commute)
    qed
    with c Some assms show ?thesis
      by (simp add: apply_to_theme_JObj update_conv' split: sum.splits)
  qed
qed

text \<open>
  C8. A successful pass returns a document with the same top-level keys in the same
  order, and every top-level field but \<open>colors\<close> and \<open>tokenColors\<close> unchanged. The
  \<open>colors\<close> object keeps its keys and their order. The \<open>tokenColors\<close> list keeps its
  length and order; each rule keeps its keys and every field but \<open>settings\<close>; each
  \<open>settings\<close> object keeps its keys and every field but \<open>foreground\<close> and \<open>background\<close>.
  The other fields are not looked at either: giving another value to one of them, at
  the top level, in a rule or in a \<open>settings\<close> object, changes the outcome in that
  field only, failures included. A rule without \<open>settings\<close>, and a \<open>settings\<close> object
  without the field, are returned as they are, with no failure.
\<close>

theorem apply_to_theme_frame_condition:
  "(apply_to_theme cm theme = Inr theme' \<longrightarrow> frame_theme theme theme') \<and>
   (k \<noteq> ''colors'' \<and> k \<noteq> ''tokenColors'' \<longrightarrow>
      apply_to_theme cm (JObj (AList.update k w fs)) =
        (case apply_to_theme cm (JObj fs) of Inl e \<Rightarrow> Inl e | Inr t \<Rightarrow> py_setitem t k w)) \<and>
   (k \<noteq> ''settings'' \<longrightarrow>
      process_rule cm (JObj (AList.update k w rf)) =
        (case process_rule cm (JObj rf) of Inl e \<Rightarrow> Inl e | Inr r' \<Rightarrow> py_setitem r' k w)) \<and>
   (k \<noteq> key \<longrightarrow>
      rewrite_field cm key (JObj (AList.update k w st)) =
        (case rewrite_field cm key (JObj st) of Inl e \<Rightarrow> Inl e | Inr s' \<Rightarrow> py_setitem s' k w)) \<and>
   (map_of rf ''settings'' = None \<longrightarrow> process_rule cm (JObj rf) = Inr (JObj rf)) \<and>
   (map_of st key = None \<longrightarrow> rewrite_field cm key (JObj st) = Inr (JObj st))"
proof (intro conjI impI)
  assume "apply_to_theme cm theme = Inr theme'"
  then show "frame_theme theme theme'" by (rule apply_to_theme_frame)
next
  assume "k \<noteq> ''colors'' \<and> k \<noteq> ''tokenColors''"
  then show "apply_to_theme cm (JObj (AList.update k w fs)) =
      (case apply_to_theme cm (JObj fs) of Inl e \<Rightarrow> Inl e | Inr t \<Rightarrow> py_setitem t k w)"
    by (simp add: apply_to_theme_other_field)
next
  assume "k \<noteq> ''settings''"
  then show "process_rule cm (JObj (AList.update k w rf)) =
      (case process_rule cm (JObj rf) of Inl e \<Rightarrow> Inl e | Inr r' \<Rightarrow> py_setitem r' k w)"
    by (rule process_rule_other_field)
next
  assume "k \<noteq> key"
  then show "rewrite_field cm key (JObj (AList.update k w st)) =
      (case rewrite_field cm key (JObj st) of Inl e \<Rightarrow> Inl e | Inr s' \<Rightarrow> py_setitem s' k w)"
    by (rule rewrite_field_other_field)
next
  assume "map_of rf ''settings'' = None"
  then show "process_rule cm (JObj rf) = Inr (JObj rf)" by (simp add: process_rule_JObj)
next
  assume "map_of st key = None"
  then show "rewrite_field cm key (JObj st) = Inr (JObj st)" by (simp add: rewrite_field_JObj)
qed

theorem apply_to_theme_frame_condition_witness:
  "frame_theme
     (JObj [(''name'', JStr ''Blue''),
            (''colors'', JObj [(''panel.border'', JStr ''ui.border'')]),
            (''tokenColors'',
               JArr [JObj [(''scope'', JStr ''comment''),
                           (''settings'', JObj [(''foreground'', JStr ''ui.border''),
                                                (''fontStyle'', JStr ''italic'')])],
                     JObj [(''scope'', JStr ''string'')]])] :: unit json)
     (JObj [(''name'', JStr ''Blue''),
            (''colors'', JObj [(''panel.border'', JStr ''#87ceeb'')]),
            (''tokenColors'',
               JArr [JObj [(''scope'', JStr ''comment''),
                           (''settings'', JObj [(''foreground'', JStr ''#87ceeb''),
                                                (''fontStyle'', JStr ''italic'')])],
                     JObj [(''scope'', JStr ''string'')]])]) \<and>
   apply_to_theme
     (init [(''blues'', [(''sky'', ''#87ceeb'')])] [(''ui'', [(''border'', ''sky'')])])
     (JObj [(''name'', JNull),
            (''colors'', JObj [(''panel.border'', JStr ''ui.border'')]),
            (''tokenColors'',
               JArr [JObj [(''scope'', JStr ''comment''),
                           (''settings'', JObj [(''foreground'', JStr ''ui.border''),
                                                (''fontStyle'', JStr ''italic'')])],
                     JObj [(''scope'', JStr ''string'')]])] :: unit json)
   = Inr (JObj [(''name'', JNull),
            (''colors'', JObj [(''panel.border'', JStr ''#87ceeb'')]),
            (''tokenColors'',
               JArr [JObj [(''scope'', JStr ''comment''),
                           (''settings'', JObj [(''foreground'', JStr ''#87ceeb''),
                                                (''fontStyle'', JStr ''italic'')])],
                     JObj [(''scope'', JStr ''string'')]])]) \<and>
   process_rule
     (init [(''blues'', [(''sky'', ''#87ceeb'')])] [(''ui'', [(''border'', ''sky'')])])
     (JObj [(''scope'', JNull),
            (''settings'', JObj [(''foreground'', JStr ''ui.border''),
                                 (''fontStyle'', JStr ''italic'')])] :: unit json)
   = Inr (JObj [(''scope'', JNull),
            (''settings'', JObj [(''foreground'', JStr ''#87ceeb''),
                                 (''fontStyle'', JStr ''italic'')])]) \<and>
   rewrite_field
     (init [(''blues'', [(''sky'', ''#87ceeb'')])] [(''ui'', [(''border'', ''sky'')])])
     ''foreground''
     (JObj [(''foreground'', JStr ''ui.border''), (''fontStyle'', JNull)] :: unit json)
   = Inr (JObj [(''foreground'', JStr ''#87ceeb''), (''fontStyle'', JNull)]) \<and>
   process_rule
     (init [(''blues'', [(''sky'', ''#87ceeb'')])] [(''ui'', [(''border'', ''sky'')])])
     (JObj [(''scope'', JStr ''string'')] :: unit json)
   = Inr (JObj [(''scope'', JStr ''string'')]) \<and>
   rewrite_field
     (init [(''blues'', [(''sky'', ''#87ceeb'')])] [(''ui'', [(''border'', ''sky'')])])
     ''background''
     (JObj [(''foreground'', JStr ''ui.border''), (''fontStyle'', JStr ''italic'')] :: unit json)
   = Inr (JObj [(''foreground'', JStr ''ui.border''), (''fontStyle'', JStr ''italic'')])"
proof -
  let ?cm = "init [(''blues'', [(''sky'', ''#87ceeb'')])] [(''ui'', [(''border'', ''sky'')])]"
  let ?st = "[(''foreground'', JStr ''ui.border''), (''fontStyle'', JStr ''italic'' :: unit json)]"
  let ?rf = "[(''scope'', JStr ''comment''), (''settings'', JObj ?st)]"
  let ?rf2 = "[(''scope'', JStr ''string'' :: unit json)]"
  let ?fs = "[(''name'', JStr ''Blue''),
              (''colors'', JObj [(''panel.border'', JStr ''ui.border'')]),
              (''tokenColors'', JArr [JObj ?rf, JObj ?rf2])]"
  let ?theme' = "JObj [(''name'', JStr ''Blue''),
            (''colors'', JObj [(''panel.border'', JStr ''#87ceeb'')]),
            (''tokenColors'',
               JArr [JObj [(''scope'', JStr ''comment''),
                           (''settings'', JObj [(''foreground'', JStr ''#87ceeb''),
                                                (''fontStyle'', JStr ''italic'')])],
                     JObj [(''scope'', JStr ''string'')]])] :: unit json"
  have res: "get_color_for_binding ?cm ''ui.border'' = Inr ''#87ceeb''"
    by (simp add: get_color_for_binding_def get_color_name_for_binding_def
        get_color_for_name_def decompose_name_def init_def)
  have field: "rewrite_field ?cm ''foreground'' (JObj ?st) =
      Inr (JObj [(''foreground'', JStr ''#87ceeb''), (''fontStyle'', JStr ''italic'')])"
    by (simp add: rewrite_field_JObj res)
  have rule: "process_rule ?cm (JObj ?rf) =
      Inr (JObj [(''scope'', JStr ''comment''),
                 (''settings'', JObj [(''foreground'', JStr ''#87ceeb''),
                                      (''fontStyle'', JStr ''italic'')])])"
    by (simp add: process_rule_JObj rewrite_field_JObj res)
  have run: "apply_to_theme ?cm (JObj ?fs) = Inr ?theme'"
    by (simp add: apply_to_theme_JObj process_rule_JObj rewrite_field_JObj res)
  note inst = apply_to_theme_frame_condition [where cm = ?cm and theme = "JObj ?fs"
      and theme' = ?theme' and fs = ?fs and w = JNull]
  have "frame_theme (JObj ?fs) ?theme'"
    using inst [where k = "''name''" and rf = ?rf2 and key = "''background''" and st = ?st] run
    by blast
  moreover have "apply_to_theme ?cm (JObj (AList.update ''name'' JNull ?fs)) =
      (case apply_to_theme ?cm (JObj ?fs) of Inl e \<Rightarrow> Inl e | Inr t \<Rightarrow> py_setitem t ''name'' JNull)"
    using inst [where k = "''name''" and rf = ?rf2 and key = "''background''" and st = ?st]
    by simp
  moreover have "process_rule ?cm (JObj (AList.update ''scope'' JNull ?rf)) =
      (case process_rule ?cm (JObj ?rf) of Inl e \<Rightarrow> Inl e | Inr r' \<Rightarrow> py_setitem r' ''scope'' JNull)"
    using inst [where k = "''scope''" and rf = ?rf and key = "''foreground''" and st = ?st]
    by simp
  moreover have "rewrite_field ?cm ''foreground'' (JObj (AList.update ''fontStyle'' JNull ?st)) =
      (case rewrite_field ?cm ''foreground'' (JObj ?st) of
         Inl e \<Rightarrow> Inl e | Inr s' \<Rightarrow> py_setitem s' ''fontStyle'' JNull)"
    using inst [where k = "''fontStyle''" and rf = ?rf and key = "''foreground''" and st = ?st]
    by simp
  moreover have "process_rule ?cm (JObj ?rf2) = Inr (JObj ?rf2)"
    using inst [where k = "''name''" and rf = ?rf2 and key = "''background''" and st = ?st]
    by simp
  moreover have "rewrite_field ?cm ''background'' (JObj ?st) = Inr (JObj ?st)"
    using inst [where k = "''name''" and rf = ?rf2 and key = "''background''" and st = ?st]
    by simp
  ultimately show ?thesis
    by (simp add: run rule field)
qed

end
